theory Spec2Isabelle
  imports Complex_Main "HOL-Library.Multiset" "HOL-Library.Word"
begin

section \<open>Dense matrices\<close>

text \<open>
  The source works on \<^verbatim>\<open>Eigen::MatrixXd\<close>. A matrix is modelled as the list of its rows;
  a \<^verbatim>\<open>double\<close> is modelled as a real number, so rounding, infinities and NaN are outside
  the model. Eigen requires the operands of a coefficient-wise operation to have the same
  shape and asserts otherwise; the model pairs the coefficients up to the shorter operand.
  The quotient by a zero coefficient is HOL's \<open>x / 0 = 0\<close>, where IEEE arithmetic gives an
  infinity or NaN.
\<close>

type_synonym matrix = "real list list"

definition rows :: "matrix \<Rightarrow> nat" where
  "rows A = length A"

definition cols :: "matrix \<Rightarrow> nat" where
  "cols A = (case A of [] \<Rightarrow> 0 | r # _ \<Rightarrow> length r)"

definition is_matrix :: "nat \<Rightarrow> nat \<Rightarrow> matrix \<Rightarrow> bool" where
  "is_matrix r c A = (length A = r \<and> list_all (\<lambda>row. length row = c) A)"

definition MatrixZero :: "nat \<Rightarrow> nat \<Rightarrow> matrix" where
  "MatrixZero r c = replicate r (replicate c 0)"

definition cwise :: "(real \<Rightarrow> real \<Rightarrow> real) \<Rightarrow> matrix \<Rightarrow> matrix \<Rightarrow> matrix" where
  "cwise f A B = map2 (map2 f) A B"

definition mat_add :: "matrix \<Rightarrow> matrix \<Rightarrow> matrix" where
  "mat_add = cwise (+)"

definition mat_sub :: "matrix \<Rightarrow> matrix \<Rightarrow> matrix" where
  "mat_sub = cwise (-)"

definition cwiseProduct :: "matrix \<Rightarrow> matrix \<Rightarrow> matrix" where
  "cwiseProduct = cwise (*)"

text \<open>
  The coefficient-wise quotient. Where the divisor has a zero coefficient the source gets an
  infinity or NaN and this definition gets 0, so the two agree only for a divisor without
  zero coefficients; \<open>nonzero\<close> states that, and what is proved about the amplitude update
  assumes it of the uncoupled term.
\<close>

definition cwiseQuotient :: "matrix \<Rightarrow> matrix \<Rightarrow> matrix" where
  "cwiseQuotient = cwise (/)"

definition nonzero :: "matrix \<Rightarrow> bool" where
  "nonzero A = list_all (list_all (\<lambda>x. x \<noteq> 0)) A"

definition scale :: "real \<Rightarrow> matrix \<Rightarrow> matrix" where
  "scale c A = map (map ((*) c)) A"

definition mat_mul :: "matrix \<Rightarrow> matrix \<Rightarrow> matrix" where
  "mat_mul A B = map (\<lambda>r. map (\<lambda>c. sum_list (map2 (*) r c)) (transpose B)) A"

definition mat_sum :: "matrix \<Rightarrow> real" where
  "mat_sum A = sum_list (map sum_list A)"

text \<open>\<^verbatim>\<open>array().abs().maxCoeff()\<close>; Eigen requires a non-empty matrix, the model gives 0 there.\<close>

definition absMaxCoeff :: "matrix \<Rightarrow> real" where
  "absMaxCoeff A = (case concat A of [] \<Rightarrow> 0 | x # xs \<Rightarrow> foldl max \<bar>x\<bar> (map abs xs))"


section \<open>Orbital pairs and coupling sets\<close>

datatype OrbitalPairTypes = CLOSE | DISTANT | VERY_DISTANT

text \<open>
  Pairs are held through \<^verbatim>\<open>std::shared_ptr<OrbitalPair>\<close> and coupling sets refer to other
  pairs, so a pair is identified by its address and the pair objects live in a heap.
\<close>

type_synonym address = nat

text \<open>
  Modelled from the spec: the class \<^verbatim>\<open>CouplingOrbitalSet\<close> is not among the sources, which
  use it through its getters only. The set of a pair \<open>(i, j)\<close> holds the intermediate index \<open>k\<close>, the overlap
  blocks \<open>S_ij_kj\<close> and \<open>S_ij_ik\<close>, and references to the companion pairs \<open>(k, j)\<close> and
  \<open>(i, k)\<close>, which are null when the companion does not exist or was screened away.
\<close>

record CouplingOrbitalSet =
  getK :: nat
  getKJPairScreened :: "address option"
  getIKPairScreened :: "address option"
  getS_ij_kj :: matrix
  getS_ij_ik :: matrix

text \<open>
  Modelled from the spec: the class \<^verbatim>\<open>OrbitalPair\<close> is declared in
  \<^verbatim>\<open>data/OrbitalPair.h\<close>, which is not among the sources. The record has the members that
  \<^verbatim>\<open>LocalMP2.cpp\<close> reads or writes; \<^verbatim>\<open>i\<close>, \<^verbatim>\<open>j\<close> and \<^verbatim>\<open>type\<close> are named \<open>pair_i\<close>,
  \<open>pair_j\<close> and \<open>pairType\<close>.
\<close>

record OrbitalPair =
  pair_i :: nat
  pair_j :: nat
  pairType :: OrbitalPairTypes
  k_ij :: matrix
  t_ij :: matrix
  residual :: matrix
  uncoupledTerm :: matrix
  coupledPairs :: "CouplingOrbitalSet list"
  lMP2PairEnergy :: real
  deltaPNO :: real
  scMP2PairEnergy :: real
  dipolePairEnergy :: real

type_synonym heap = "address \<Rightarrow> OrbitalPair"

text \<open>
  Modelled from the spec: \<^verbatim>\<open>LocalMP2.h\<close> and the local correlation controller are not among
  the sources. The record holds what \<^verbatim>\<open>LocalMP2.cpp\<close> reads from them: the settings of
  \<^verbatim>\<open>LocalMP2\<close>, the occupied block \<open>f_MO\<close> of the Fock matrix in the MO basis (computed by
  the source as \<^verbatim>\<open>actCoef.transpose() * f * actCoef\<close>), the prescreening threshold \<open>f_cut\<close>,
  the DIIS start threshold, the accelerator, and the OpenMP environment: the number of
  threads and, for a parallel loop of \<open>n\<close> iterations, the thread that runs iteration
  \<open>index\<close>. A build without OpenMP is \<open>nThreads = 1\<close> with \<open>threadNum = (\<lambda>n index. 0)\<close>. The
  cycle counter is an \<^verbatim>\<open>unsigned int\<close>, so \<open>maxCycles\<close> is compared as a 32-bit word.
\<close>

record 'd LocalMP2 =
  ssScaling :: real
  osScaling :: real
  maxCycles :: "32 word"
  maxResidual :: real
  f_MO :: "nat \<Rightarrow> nat \<Rightarrow> real"
  fockMatrixPrescreeningThresholdd :: real
  diisStartResidual :: real
  nThreads :: nat
  threadNum :: "nat \<Rightarrow> nat \<Rightarrow> nat"
  diisOptimize :: "'d \<Rightarrow> heap \<Rightarrow> address list \<Rightarrow> 'd \<times> (address \<Rightarrow> matrix option)"


section \<open>calculateEnergy\<close>

definition ssEnergy :: "OrbitalPair \<Rightarrow> real" where
  "ssEnergy pair =
     (if pair_i pair = pair_j pair then 1 else 2)
       * mat_sum (cwiseProduct (mat_sub (t_ij pair) (transpose (t_ij pair))) (k_ij pair))"

definition osEnergy :: "OrbitalPair \<Rightarrow> real" where
  "osEnergy pair =
     (if pair_i pair = pair_j pair then 1 else 2)
       * mat_sum (cwiseProduct (t_ij pair) (k_ij pair))"

definition pairEnergy :: "'d LocalMP2 \<Rightarrow> OrbitalPair \<Rightarrow> real" where
  "pairEnergy settings pair = ssScaling settings * ssEnergy pair + osScaling settings * osEnergy pair"

text \<open>The body of the first loop: accumulate the pair energy, store it with the PNO correction.\<close>

definition closePairStep :: "'d LocalMP2 \<Rightarrow> heap \<times> real \<Rightarrow> address \<Rightarrow> heap \<times> real" where
  "closePairStep settings s a =
     (let h = fst s; localMP2PairEnergies = snd s; pair = h a;
          e = pairEnergy settings pair
      in (h(a := pair\<lparr>lMP2PairEnergy := e + deltaPNO pair\<rparr>), localMP2PairEnergies + e))"

definition veryDistantPairStep :: "heap \<Rightarrow> real \<Rightarrow> address \<Rightarrow> real" where
  "veryDistantPairStep h dipoleContribution a =
     (let pair = h a in
      if scMP2PairEnergy pair \<noteq> 0 then dipoleContribution + scMP2PairEnergy pair
      else dipoleContribution + dipolePairEnergy pair)"

definition calculateEnergy ::
  "'d LocalMP2 \<Rightarrow> heap \<Rightarrow> address list \<Rightarrow> address list \<Rightarrow> real list \<times> heap" where
  "calculateEnergy settings h closePairs veryDistantPairs =
     (let s1 = foldl (closePairStep settings) (h, 0) closePairs;
          h1 = fst s1; localMP2PairEnergies = snd s1;
          dipoleContribution = foldl (veryDistantPairStep h1) 0 veryDistantPairs;
          pnoTruncation = foldl (\<lambda>acc a. acc + deltaPNO (h1 a)) 0 closePairs
      in ([localMP2PairEnergies, dipoleContribution, pnoTruncation], h1))"


section \<open>optimizeAmplitudes\<close>

subsection \<open>The coupling sum of one pair\<close>

text \<open>
  Lines 151 to 160: the companion \<open>(k, j)\<close>. The comment in the source says that only pairs
  with first index \<open>\<ge>\<close> second index are listed, so the amplitudes of \<open>(k, j)\<close> are the stored
  ones when \<open>k \<ge> j\<close> and their transpose otherwise.
\<close>

definition kjTerm :: "'d LocalMP2 \<Rightarrow> heap \<Rightarrow> nat \<Rightarrow> nat \<Rightarrow> CouplingOrbitalSet \<Rightarrow> matrix option" where
  "kjTerm ctrl h i j coupledSet =
     (let k = getK coupledSet in
      case getKJPairScreened coupledSet of
        None \<Rightarrow> None
      | Some kjPair \<Rightarrow>
          if \<bar>f_MO ctrl i k\<bar> \<ge> fockMatrixPrescreeningThresholdd ctrl \<and> i \<noteq> k then
            let s_ij_kj = getS_ij_kj coupledSet;
                tmp = mat_mul (mat_mul s_ij_kj
                         (if k \<ge> j then t_ij (h kjPair) else transpose (t_ij (h kjPair))))
                         (transpose s_ij_kj)
            in Some (scale (f_MO ctrl i k) tmp)
          else None)"

text \<open>Lines 161 to 167: the companion \<open>(i, k)\<close>.\<close>

definition ikTerm :: "'d LocalMP2 \<Rightarrow> heap \<Rightarrow> nat \<Rightarrow> nat \<Rightarrow> CouplingOrbitalSet \<Rightarrow> matrix option" where
  "ikTerm ctrl h i j coupledSet =
     (let k = getK coupledSet in
      case getIKPairScreened coupledSet of
        None \<Rightarrow> None
      | Some ikPair \<Rightarrow>
          if \<bar>f_MO ctrl j k\<bar> \<ge> fockMatrixPrescreeningThresholdd ctrl \<and> j \<noteq> k then
            let s_ij_ik = getS_ij_ik coupledSet;
                tmp = mat_mul (mat_mul s_ij_ik
                         (if i \<ge> k then t_ij (h ikPair) else transpose (t_ij (h ikPair))))
                         (transpose s_ij_ik)
            in Some (scale (f_MO ctrl k j) tmp)
          else None)"

text \<open>\<^verbatim>\<open>*increments[threadId] -= ...\<close>, when the guard of the term holds.\<close>

definition subtractFrom :: "nat \<Rightarrow> matrix option \<Rightarrow> matrix list \<Rightarrow> matrix list" where
  "subtractFrom threadId term increments =
     (case term of
        None \<Rightarrow> increments
      | Some m \<Rightarrow> increments[threadId := mat_sub (increments ! threadId) m])"

text \<open>One iteration of the loop over \<^verbatim>\<open>pair->coupledPairs\<close>.\<close>

definition couplingIteration ::
  "'d LocalMP2 \<Rightarrow> heap \<Rightarrow> nat \<Rightarrow> nat \<Rightarrow> nat \<Rightarrow> CouplingOrbitalSet \<Rightarrow> matrix list \<Rightarrow> matrix list" where
  "couplingIteration ctrl h i j threadId coupledSet increments =
     subtractFrom threadId (ikTerm ctrl h i j coupledSet)
       (subtractFrom threadId (kjTerm ctrl h i j coupledSet) increments)"

text \<open>
  The parallel loop. Iteration \<open>index\<close> runs on thread \<open>threadNum n index\<close> and writes only the
  accumulator of that thread; it reads the heap, which no iteration writes. A thread runs its
  iterations in increasing order, so every accumulator ends as in the sequential run below.
\<close>

fun couplingLoop ::
  "'d LocalMP2 \<Rightarrow> heap \<Rightarrow> nat \<Rightarrow> nat \<Rightarrow> nat \<Rightarrow> nat \<Rightarrow> CouplingOrbitalSet list \<Rightarrow> matrix list \<Rightarrow> matrix list" where
  "couplingLoop ctrl h i j n index [] increments = increments"
| "couplingLoop ctrl h i j n index (coupledSet # rest) increments =
     couplingLoop ctrl h i j n (Suc index) rest
       (couplingIteration ctrl h i j (threadNum ctrl n index) coupledSet increments)"

text \<open>Lines 172 to 174: the accumulators of the other threads are added to the first one.\<close>

fun mergeIncrements :: "matrix list \<Rightarrow> matrix" where
  "mergeIncrements [] = []"
| "mergeIncrements (first # others) = foldl mat_add first others"

text \<open>
  Lines 127 to 174: the temporary \<^verbatim>\<open>residual\<close> starts as a copy of the pair's field
  \<^verbatim>\<open>residual\<close>, receives the uncoupled term and is the first accumulator of the coupling sum;
  after the merge it holds the residual of the pair at address \<open>a\<close>.
\<close>

definition computeResidual :: "'d LocalMP2 \<Rightarrow> heap \<Rightarrow> address \<Rightarrow> matrix" where
  "computeResidual ctrl h a =
     (let pair = h a;
          residual0 = mat_add (residual pair) (cwiseProduct (uncoupledTerm pair) (t_ij pair));
          increments = residual0 #
             replicate (nThreads ctrl - 1) (MatrixZero (rows residual0) (cols residual0));
          n = length (coupledPairs pair)
      in mergeIncrements
           (couplingLoop ctrl h (pair_i pair) (pair_j pair) n 0 (coupledPairs pair) increments))"

subsection \<open>One cycle\<close>

text \<open>
  The body of the loop over \<^verbatim>\<open>orbitalPairs\<close>: a very distant pair is skipped; otherwise the
  field \<^verbatim>\<open>residual\<close> receives a copy of \<^verbatim>\<open>k_ij\<close>, the residual is built in a temporary, the
  amplitudes of the pair are updated in place and the largest residual is tracked.
\<close>

definition pairStep :: "'d LocalMP2 \<Rightarrow> heap \<times> real \<Rightarrow> address \<Rightarrow> heap \<times> real" where
  "pairStep ctrl s a =
     (let h = fst s; largest = snd s in
      if pairType (h a) = VERY_DISTANT then (h, largest)
      else
        let h1 = h(a := (h a)\<lparr>residual := k_ij (h a)\<rparr>);
            res = computeResidual ctrl h1 a;
            pair = h1 a;
            h2 = h1(a := pair\<lparr>t_ij := mat_sub (t_ij pair) (cwiseQuotient res (uncoupledTerm pair))\<rparr>);
            maxCoeff = absMaxCoeff res
        in (h2, if maxCoeff > largest then maxCoeff else largest))"

definition sweep :: "'d LocalMP2 \<Rightarrow> heap \<Rightarrow> address list \<Rightarrow> heap \<times> real" where
  "sweep ctrl h orbitalPairs = foldl (pairStep ctrl) (h, 0) orbitalPairs"

text \<open>
  Modelled from the spec: \<^verbatim>\<open>OrbitalPairDIISWrapper::optimize\<close> is not among the sources. The
  accelerator keeps a history (of type \<open>'d\<close>) and may overwrite the amplitudes of some or all
  of the pairs it is given with an extrapolated estimate: \<open>diisOptimize\<close> returns the new
  history and the new amplitudes, which are written into the pairs of the list.
\<close>

definition applyDIIS :: "heap \<Rightarrow> address list \<Rightarrow> (address \<Rightarrow> matrix option) \<Rightarrow> heap" where
  "applyDIIS h orbitalPairs newAmplitudes =
     (\<lambda>a. if a \<in> set orbitalPairs then
             (case newAmplitudes a of None \<Rightarrow> h a | Some t \<Rightarrow> (h a)\<lparr>t_ij := t\<rparr>)
           else h a)"

record 'd loopState =
  pairHeap :: heap
  cycle :: "32 word"
  largestResidual :: real
  diis :: 'd

text \<open>
  The body of the while loop up to the cycle check; the printed table and the variable
  \<^verbatim>\<open>oldEnergy\<close>, which only feeds it, are left out.
\<close>

definition cycleBody ::
  "'d LocalMP2 \<Rightarrow> address list \<Rightarrow> address list \<Rightarrow> 'd loopState \<Rightarrow> 'd loopState" where
  "cycleBody ctrl orbitalPairs veryDistantPairs s =
     (let sw = sweep ctrl (pairHeap s) orbitalPairs;
          h1 = fst sw; largest = snd sw;
          cycle' = cycle s + 1;
          h2 = snd (calculateEnergy ctrl h1 orbitalPairs veryDistantPairs)
      in if diisStartResidual ctrl > largest then
           let r = diisOptimize ctrl (diis s) h2 orbitalPairs
           in \<lparr>pairHeap = applyDIIS h2 orbitalPairs (snd r), cycle = cycle',
               largestResidual = largest, diis = fst r\<rparr>
         else \<lparr>pairHeap = h2, cycle = cycle', largestResidual = largest, diis = diis s\<rparr>)"

subsection \<open>The iteration\<close>

datatype error = SerenityError "32 word"

text \<open>
  The while loop. The counters are \<^verbatim>\<open>unsigned int\<close>, so \<^verbatim>\<open>maxCycles - 1\<close> wraps to
  \<open>2^32 - 1\<close> for \<^verbatim>\<open>maxCycles = 0\<close>; the loop then has no bound, and its result is an option.
  The error carries the cycle count of the message.
\<close>

partial_function (option) amplitudeLoop ::
  "'d LocalMP2 \<Rightarrow> address list \<Rightarrow> address list \<Rightarrow> 'd loopState \<Rightarrow> (error + 'd loopState) option" where
  "amplitudeLoop ctrl orbitalPairs veryDistantPairs s =
     (if largestResidual s > maxResidual ctrl then
        (let s' = cycleBody ctrl orbitalPairs veryDistantPairs s in
         if cycle s' > maxCycles ctrl - 1 then Some (Inl (SerenityError (cycle s')))
         else amplitudeLoop ctrl orbitalPairs veryDistantPairs s')
      else Some (Inr s))"

definition optimizeAmplitudes ::
  "'d LocalMP2 \<Rightarrow> 'd \<Rightarrow> heap \<Rightarrow> address list \<Rightarrow> address list \<Rightarrow> (error + heap) option" where
  "optimizeAmplitudes ctrl diis0 h orbitalPairs veryDistantPairs =
     map_option (map_sum id pairHeap)
       (amplitudeLoop ctrl orbitalPairs veryDistantPairs
          \<lparr>pairHeap = h, cycle = 0, largestResidual = 10, diis = diis0\<rparr>)"


section \<open>calculateEnergyCorrection\<close>

definition sortPair :: "heap \<Rightarrow> address list \<times> address list \<Rightarrow> address \<Rightarrow> address list \<times> address list" where
  "sortPair h sorted_so_far pair =
     (let closePairs = fst sorted_so_far; veryDistantPairs = snd sorted_so_far in
      if pairType (h pair) = VERY_DISTANT then (closePairs, veryDistantPairs @ [pair])
      else (closePairs @ [pair], veryDistantPairs))"

definition sortPairs :: "heap \<Rightarrow> address list \<Rightarrow> address list \<times> address list" where
  "sortPairs h pairs = foldl (sortPair h) ([], []) pairs"

definition calculateEnergyCorrection ::
  "'d LocalMP2 \<Rightarrow> 'd \<Rightarrow> heap \<Rightarrow> address list \<Rightarrow> (error + real list \<times> heap) option" where
  "calculateEnergyCorrection ctrl diis0 h pairs =
     (let sorted_pairs = sortPairs h pairs;
          closePairs = fst sorted_pairs; veryDistantPairs = snd sorted_pairs in
      case optimizeAmplitudes ctrl diis0 h closePairs veryDistantPairs of
        None \<Rightarrow> None
      | Some (Inl e) \<Rightarrow> Some (Inl e)
      | Some (Inr h') \<Rightarrow> Some (Inr (calculateEnergy ctrl h' closePairs veryDistantPairs)))"


section \<open>Reference definitions\<close>

text \<open>What a very distant pair adds to the second component of the energy vector.\<close>

definition veryDistantEnergy :: "OrbitalPair \<Rightarrow> real" where
  "veryDistantEnergy pair =
     (if scMP2PairEnergy pair \<noteq> 0 then scMP2PairEnergy pair else dipolePairEnergy pair)"

text \<open>
  The first component of the energy vector as the specification words it: the sum over the
  close and distant pairs of the pair energy, the PNO truncation correction included.
\<close>

definition specFirstComponent :: "'d LocalMP2 \<Rightarrow> heap \<Rightarrow> address list \<Rightarrow> real" where
  "specFirstComponent settings h closePairs =
     sum_list (map (\<lambda>a. pairEnergy settings (h a) + deltaPNO (h a)) closePairs)"

text \<open>
  The matrices that the coupling sum of the pair at address \<open>a\<close> subtracts, in the order of
  \<^verbatim>\<open>pair->coupledPairs\<close>: for every coupling set the \<open>(k, j)\<close> term, then the \<open>(i, k)\<close>
  term, each present only when its guard holds.
\<close>

definition termList :: "matrix option \<Rightarrow> matrix list" where
  "termList term = (case term of None \<Rightarrow> [] | Some m \<Rightarrow> [m])"

definition couplingTerms :: "'d LocalMP2 \<Rightarrow> heap \<Rightarrow> address \<Rightarrow> matrix list" where
  "couplingTerms ctrl h a =
     concat (map (\<lambda>coupledSet.
                termList (kjTerm ctrl h (pair_i (h a)) (pair_j (h a)) coupledSet)
              @ termList (ikTerm ctrl h (pair_i (h a)) (pair_j (h a)) coupledSet))
            (coupledPairs (h a)))"

text \<open>The companion pairs whose amplitudes the coupling sum of a pair reads.\<close>

definition kjRead :: "'d LocalMP2 \<Rightarrow> nat \<Rightarrow> CouplingOrbitalSet \<Rightarrow> address list" where
  "kjRead ctrl i coupledSet =
     (case getKJPairScreened coupledSet of
        None \<Rightarrow> []
      | Some kjPair \<Rightarrow>
          if \<bar>f_MO ctrl i (getK coupledSet)\<bar> \<ge> fockMatrixPrescreeningThresholdd ctrl
             \<and> i \<noteq> getK coupledSet
          then [kjPair] else [])"

definition ikRead :: "'d LocalMP2 \<Rightarrow> nat \<Rightarrow> CouplingOrbitalSet \<Rightarrow> address list" where
  "ikRead ctrl j coupledSet =
     (case getIKPairScreened coupledSet of
        None \<Rightarrow> []
      | Some ikPair \<Rightarrow>
          if \<bar>f_MO ctrl j (getK coupledSet)\<bar> \<ge> fockMatrixPrescreeningThresholdd ctrl
             \<and> j \<noteq> getK coupledSet
          then [ikPair] else [])"

definition companionsRead :: "'d LocalMP2 \<Rightarrow> OrbitalPair \<Rightarrow> address list" where
  "companionsRead ctrl pair =
     concat (map (\<lambda>coupledSet. kjRead ctrl (pair_i pair) coupledSet
                              @ ikRead ctrl (pair_j pair) coupledSet)
                 (coupledPairs pair))"

text \<open>
  The residual of the pair at address \<open>a\<close> for the amplitudes that the heap holds: what the
  temporary of the source ends with once the field \<open>residual\<close> has received \<open>k_ij\<close>.
\<close>

definition pairResidual :: "'d LocalMP2 \<Rightarrow> heap \<Rightarrow> address \<Rightarrow> matrix" where
  "pairResidual ctrl h a = computeResidual ctrl (h(a := (h a)\<lparr>residual := k_ij (h a)\<rparr>)) a"

text \<open>
  The two-phase (Jacobi) cycle of the specification: first the residual of every pair that
  is not very distant is computed from the amplitudes at the start of the cycle, then every
  update is applied.
\<close>

definition applyUpdate :: "heap \<times> real \<Rightarrow> address \<times> matrix \<Rightarrow> heap \<times> real" where
  "applyUpdate s upd =
     (let h = fst s; largest = snd s; a = fst upd; res = snd upd; pair = h a;
          maxCoeff = absMaxCoeff res
      in (h(a := pair\<lparr>residual := k_ij pair,
                       t_ij := mat_sub (t_ij pair) (cwiseQuotient res (uncoupledTerm pair))\<rparr>),
          if maxCoeff > largest then maxCoeff else largest))"

definition jacobiCycle :: "'d LocalMP2 \<Rightarrow> heap \<Rightarrow> address list \<Rightarrow> heap \<times> real" where
  "jacobiCycle ctrl h orbitalPairs =
     (let active = filter (\<lambda>a. pairType (h a) \<noteq> VERY_DISTANT) orbitalPairs;
          residuals = map (pairResidual ctrl h) active
      in foldl applyUpdate (h, 0) (zip active residuals))"

text \<open>
  The cycle of the specification: the body of the while loop with the two-phase cycle in the
  place of the sweep.
\<close>

definition jacobiCycleBody ::
  "'d LocalMP2 \<Rightarrow> address list \<Rightarrow> address list \<Rightarrow> 'd loopState \<Rightarrow> 'd loopState" where
  "jacobiCycleBody ctrl orbitalPairs veryDistantPairs s =
     (let sw = jacobiCycle ctrl (pairHeap s) orbitalPairs;
          h1 = fst sw; largest = snd sw;
          cycle' = cycle s + 1;
          h2 = snd (calculateEnergy ctrl h1 orbitalPairs veryDistantPairs)
      in if diisStartResidual ctrl > largest then
           let r = diisOptimize ctrl (diis s) h2 orbitalPairs
           in \<lparr>pairHeap = applyDIIS h2 orbitalPairs (snd r), cycle = cycle',
               largestResidual = largest, diis = fst r\<rparr>
         else \<lparr>pairHeap = h2, cycle = cycle', largestResidual = largest, diis = diis s\<rparr>)"

text \<open>
  The heap in which the sweep of a cycle processes the pair at position \<open>n\<close> of the list: the
  first \<open>n\<close> pairs have been processed.
\<close>

definition heapBefore :: "'d LocalMP2 \<Rightarrow> heap \<Rightarrow> address list \<Rightarrow> nat \<Rightarrow> heap" where
  "heapBefore ctrl h orbitalPairs n = fst (sweep ctrl h (take n orbitalPairs))"

text \<open>
  The amplitudes that the accelerator writes into the pair at address \<open>a\<close> at the end of the
  cycle that starts in state \<open>s\<close>, if it is triggered and returns amplitudes for that pair.
\<close>

definition acceleratedAmplitudes ::
  "'d LocalMP2 \<Rightarrow> address list \<Rightarrow> address list \<Rightarrow> 'd loopState \<Rightarrow> address \<Rightarrow> matrix option" where
  "acceleratedAmplitudes ctrl orbitalPairs veryDistantPairs s a =
     (let sw = sweep ctrl (pairHeap s) orbitalPairs;
          h2 = snd (calculateEnergy ctrl (fst sw) orbitalPairs veryDistantPairs)
      in if diisStartResidual ctrl > snd sw \<and> a \<in> set orbitalPairs
         then snd (diisOptimize ctrl (diis s) h2 orbitalPairs) a else None)"

text \<open>
  No pair of the list reads the amplitudes of a companion that the same sweep has already
  updated: every companion read is very distant or is not among the pairs processed before.
\<close>

fun readsOnlyPending :: "'d LocalMP2 \<Rightarrow> heap \<Rightarrow> address list \<Rightarrow> address list \<Rightarrow> bool" where
  "readsOnlyPending ctrl h processed [] = True"
| "readsOnlyPending ctrl h processed (a # rest) =
     ((pairType (h a) = VERY_DISTANT
        \<or> list_all (\<lambda>c. c \<notin> set processed \<or> pairType (h c) = VERY_DISTANT)
             (companionsRead ctrl (h a)))
      \<and> readsOnlyPending ctrl h (processed @ [a]) rest)"

text \<open>
  The order in which a pair of orbital indices is listed. The source lists the pairs with
  first index \<open>\<ge>\<close> second index (comment at line 155); the specification states the order
  \<open>i \<le> j\<close>.
\<close>

definition listedPair :: "nat \<Rightarrow> nat \<Rightarrow> nat \<times> nat" where
  "listedPair p q = (max p q, min p q)"

definition specListedPair :: "nat \<Rightarrow> nat \<Rightarrow> nat \<times> nat" where
  "specListedPair p q = (min p q, max p q)"

text \<open>
  The \<open>(k, j)\<close> term as the specification words it: the companion amplitudes are transposed
  exactly when the \<open>i \<le> j\<close> listing of the companion is the reverse of \<open>(k, j)\<close>.
\<close>

definition specKJTerm :: "'d LocalMP2 \<Rightarrow> heap \<Rightarrow> nat \<Rightarrow> nat \<Rightarrow> CouplingOrbitalSet \<Rightarrow> matrix option" where
  "specKJTerm ctrl h i j coupledSet =
     (let k = getK coupledSet in
      case getKJPairScreened coupledSet of
        None \<Rightarrow> None
      | Some kjPair \<Rightarrow>
          if \<bar>f_MO ctrl i k\<bar> \<ge> fockMatrixPrescreeningThresholdd ctrl \<and> i \<noteq> k then
            Some (scale (f_MO ctrl i k)
                   (mat_mul (mat_mul (getS_ij_kj coupledSet)
                       (if specListedPair k j \<noteq> (k, j) then transpose (t_ij (h kjPair))
                        else t_ij (h kjPair)))
                     (transpose (getS_ij_kj coupledSet))))
          else None)"


definition specIKTerm :: "'d LocalMP2 \<Rightarrow> heap \<Rightarrow> nat \<Rightarrow> nat \<Rightarrow> CouplingOrbitalSet \<Rightarrow> matrix option" where
  "specIKTerm ctrl h i j coupledSet =
     (let k = getK coupledSet in
      case getIKPairScreened coupledSet of
        None \<Rightarrow> None
      | Some ikPair \<Rightarrow>
          if \<bar>f_MO ctrl j k\<bar> \<ge> fockMatrixPrescreeningThresholdd ctrl \<and> j \<noteq> k then
            Some (scale (f_MO ctrl k j)
                   (mat_mul (mat_mul (getS_ij_ik coupledSet)
                       (if specListedPair i k \<noteq> (i, k) then transpose (t_ij (h ikPair))
                        else t_ij (h ikPair)))
                     (transpose (getS_ij_ik coupledSet))))
          else None)"

text \<open>The residual of the pair at address \<open>a\<close> with the terms as the specification words them.\<close>

definition specPairResidual :: "'d LocalMP2 \<Rightarrow> heap \<Rightarrow> address \<Rightarrow> matrix" where
  "specPairResidual ctrl h a =
     foldl mat_sub (mat_add (k_ij (h a)) (cwiseProduct (uncoupledTerm (h a)) (t_ij (h a))))
       (concat (map (\<lambda>coupledSet.
                  termList (specKJTerm ctrl h (pair_i (h a)) (pair_j (h a)) coupledSet)
                @ termList (specIKTerm ctrl h (pair_i (h a)) (pair_j (h a)) coupledSet))
               (coupledPairs (h a))))"


section \<open>Small systems\<close>

definition exSettings :: "unit LocalMP2" where
  "exSettings = \<lparr>ssScaling = 1, osScaling = 1, maxCycles = 2, maxResidual = 1 / 100000,
     f_MO = (\<lambda>p q. if p = q then - 1 else 1 / 10),
     fockMatrixPrescreeningThresholdd = 1 / 100000, diisStartResidual = 0,
     nThreads = 2, threadNum = (\<lambda>n index. index mod 2),
     diisOptimize = (\<lambda>d h ps. (d, \<lambda>a. None))\<rparr>"

text \<open>One close pair with two PNOs and one very distant pair.\<close>

definition exPair :: OrbitalPair where
  "exPair = \<lparr>pair_i = 1, pair_j = 0, pairType = CLOSE,
     k_ij = [[1, 2], [3, 4]], t_ij = [[1, 1 / 2], [0, 1]], residual = [],
     uncoupledTerm = [[1, 1], [1, 1]], coupledPairs = [],
     lMP2PairEnergy = 0, deltaPNO = 1 / 4, scMP2PairEnergy = 0, dipolePairEnergy = 0\<rparr>"

definition exFar :: OrbitalPair where
  "exFar = exPair\<lparr>pairType := VERY_DISTANT, scMP2PairEnergy := 0, dipolePairEnergy := 1 / 8\<rparr>"

definition exHeap :: heap where
  "exHeap = (\<lambda>a. if a = 0 then exPair else exFar)"

text \<open>
  The single-pair system of the specification: no coupling sets, zero amplitudes,
  \<open>k_ij = diag(0.1, 0.1)\<close> and an uncoupled term of ones.
\<close>

definition exOnePair :: OrbitalPair where
  "exOnePair = \<lparr>pair_i = 0, pair_j = 0, pairType = CLOSE,
     k_ij = [[1 / 10, 0], [0, 1 / 10]], t_ij = [[0, 0], [0, 0]], residual = [],
     uncoupledTerm = [[1, 1], [1, 1]], coupledPairs = [],
     lMP2PairEnergy = 0, deltaPNO = 0, scMP2PairEnergy = 0, dipolePairEnergy = 0\<rparr>"

definition exOne :: heap where
  "exOne = (\<lambda>a. exOnePair)"

text \<open>
  Two occupied orbitals with one PNO per pair: the pairs \<open>(0,0)\<close>, \<open>(1,0)\<close> and \<open>(1,1)\<close> at
  the addresses 0, 1 and 2, each with the coupling sets of \<open>k = 0\<close> and \<open>k = 1\<close>.
\<close>

definition unitSet :: "nat \<Rightarrow> address option \<Rightarrow> address option \<Rightarrow> CouplingOrbitalSet" where
  "unitSet k kjPair ikPair =
     \<lparr>getK = k, getKJPairScreened = kjPair, getIKPairScreened = ikPair,
      getS_ij_kj = [[1]], getS_ij_ik = [[1]]\<rparr>"

definition unitPair :: "nat \<Rightarrow> nat \<Rightarrow> CouplingOrbitalSet list \<Rightarrow> OrbitalPair" where
  "unitPair i j sets =
     \<lparr>pair_i = i, pair_j = j, pairType = CLOSE, k_ij = [[1 / 10]], t_ij = [[0]], residual = [],
      uncoupledTerm = [[2]], coupledPairs = sets,
      lMP2PairEnergy = 0, deltaPNO = 0, scMP2PairEnergy = 0, dipolePairEnergy = 0\<rparr>"

definition exSystem :: heap where
  "exSystem = (\<lambda>a.
     if a = 0 then unitPair 0 0 [unitSet 0 (Some 0) (Some 0), unitSet 1 (Some 1) (Some 1)]
     else if a = 1 then unitPair 1 0 [unitSet 0 (Some 0) (Some 1), unitSet 1 (Some 1) (Some 2)]
     else unitPair 1 1 [unitSet 0 (Some 1) (Some 1), unitSet 1 (Some 2) (Some 2)])"

text \<open>
  The pair \<open>(2,1)\<close> at address 0 with two PNOs and two coupling sets. For \<open>k = 0\<close> the
  companion \<open>(k, j) = (0,1)\<close> is the pair listed as \<open>(1,0)\<close>; for \<open>k = 3\<close> the companion
  \<open>(i, k) = (2,3)\<close> is the pair listed as \<open>(3,2)\<close>. Both companions have amplitudes that are
  not symmetric; the other companions are screened away.
\<close>

definition exSet :: CouplingOrbitalSet where
  "exSet = \<lparr>getK = 0, getKJPairScreened = Some 1, getIKPairScreened = None,
     getS_ij_kj = [[1, 0], [0, 1]], getS_ij_ik = [[1, 0], [0, 1]]\<rparr>"

definition exSet3 :: CouplingOrbitalSet where
  "exSet3 = \<lparr>getK = 3, getKJPairScreened = None, getIKPairScreened = Some 2,
     getS_ij_kj = [[1, 0], [0, 1]], getS_ij_ik = [[1, 0], [0, 1]]\<rparr>"

definition exOwner :: OrbitalPair where
  "exOwner = \<lparr>pair_i = 2, pair_j = 1, pairType = CLOSE,
     k_ij = [[1, 0], [0, 1]], t_ij = [[0, 0], [0, 0]], residual = [],
     uncoupledTerm = [[1, 1], [1, 1]], coupledPairs = [exSet, exSet3],
     lMP2PairEnergy = 0, deltaPNO = 0, scMP2PairEnergy = 0, dipolePairEnergy = 0\<rparr>"

definition exCompanions :: heap where
  "exCompanions = (\<lambda>a. if a = 0 then exOwner
       else if a = 2 then exPair\<lparr>pair_i := 3, pair_j := 2, t_ij := [[0, 2], [0, 0]]\<rparr>
       else exPair\<lparr>t_ij := [[1, 2], [3, 4]]\<rparr>)"

text \<open>
  Settings whose accelerator is triggered below a largest residual of 1 and then resets the
  amplitudes of the pair at address 0.
\<close>

definition exAccelerated :: "unit LocalMP2" where
  "exAccelerated = exSettings\<lparr>diisStartResidual := 1,
     diisOptimize := (\<lambda>d h ps. (d, \<lambda>a. if a = 0 then Some [[0]] else None))\<rparr>"

text \<open>The same settings with a prescreening threshold above every off-diagonal Fock element.\<close>

definition exScreened :: "unit LocalMP2" where
  "exScreened = exSettings\<lparr>fockMatrixPrescreeningThresholdd := 1 / 2\<rparr>"

text \<open>The same settings with room for five cycles.\<close>

definition exConverging :: "unit LocalMP2" where
  "exConverging = exSettings\<lparr>maxCycles := 5\<rparr>"

text \<open>The state in which \<open>optimizeAmplitudes\<close> enters its loop.\<close>

definition exInitial :: "heap \<Rightarrow> unit loopState" where
  "exInitial h = \<lparr>pairHeap = h, cycle = 0, largestResidual = 10, diis = ()\<rparr>"

text \<open>The two-orbital system after one sweep.\<close>

definition exSwept :: heap where
  "exSwept = fst (sweep exSettings exSystem [0, 1, 2])"

text \<open>The same heap with the pair \<open>(1,0)\<close> very distant.\<close>

definition exFarMiddle :: heap where
  "exFarMiddle = (\<lambda>a. if a = 1 then (exSwept 1)\<lparr>pairType := VERY_DISTANT\<rparr> else exSwept a)"

text \<open>The heap that \<open>calculateEnergyCorrection\<close> leaves for \<open>exHeap\<close>.\<close>

definition exFinal :: heap where
  "exFinal = (\<lambda>a. if a = 0
       then exPair\<lparr>t_ij := [[- 1, - 2], [- 3, - 4]], residual := [[1, 2], [3, 4]],
                  lMP2PairEnergy := - 247 / 4\<rparr>
       else exFar)"

lemmas ex_defs = exSettings_def exPair_def exFar_def exHeap_def unitSet_def unitPair_def
  exSystem_def

lemmas matrix_defs = mat_sum_def cwiseProduct_def cwiseQuotient_def mat_add_def mat_sub_def
  cwise_def scale_def mat_mul_def absMaxCoeff_def rows_def cols_def MatrixZero_def

lemmas energy_defs = calculateEnergy_def closePairStep_def veryDistantPairStep_def
  pairEnergy_def ssEnergy_def osEnergy_def veryDistantEnergy_def

lemmas sweep_defs = sweep_def pairStep_def computeResidual_def couplingIteration_def
  subtractFrom_def kjTerm_def ikTerm_def applyUpdate_def pairResidual_def

lemmas run_defs = cycleBody_def sweep_defs energy_defs matrix_defs applyDIIS_def Let_def


section \<open>The energy evaluation\<close>

lemma pairEnergy_upd:
  "pairEnergy S ((h(p := (h p)\<lparr>lMP2PairEnergy := e\<rparr>)) a) = pairEnergy S (h a)"
  by (simp add: pairEnergy_def ssEnergy_def osEnergy_def)

lemma closePairStep_pair:
  "closePairStep S (h, acc) a =
     (h(a := (h a)\<lparr>lMP2PairEnergy := pairEnergy S (h a) + deltaPNO (h a)\<rparr>),
      acc + pairEnergy S (h a))"
  by (simp add: closePairStep_def Let_def)

lemma closeLoop_heap:
  "fst (foldl (closePairStep S) (h, acc) ps) =
     (\<lambda>a. if a \<in> set ps
          then (h a)\<lparr>lMP2PairEnergy := pairEnergy S (h a) + deltaPNO (h a)\<rparr> else h a)"
proof (induction ps arbitrary: h acc)
  case Nil
  show ?case by simp
next
  case (Cons p ps)
  show ?case
    by (simp add: closePairStep_pair Cons.IH fun_eq_iff pairEnergy_def ssEnergy_def osEnergy_def)
qed

lemma closeLoop_sum:
  "snd (foldl (closePairStep S) (h, acc) ps) = acc + sum_list (map (\<lambda>a. pairEnergy S (h a)) ps)"
proof (induction ps arbitrary: h acc)
  case Nil
  show ?case by simp
next
  case (Cons p ps)
  show ?case
    by (simp add: closePairStep_pair Cons.IH pairEnergy_upd del: fun_upd_apply)
qed

lemma foldl_add_sum:
  "foldl (\<lambda>acc a. acc + f a) (acc0::real) xs = acc0 + sum_list (map f xs)"
  by (induction xs arbitrary: acc0) simp_all

lemma vdLoop_sum:
  "foldl (veryDistantPairStep h) acc0 xs = acc0 + sum_list (map (\<lambda>a. veryDistantEnergy (h a)) xs)"
  by (induction xs arbitrary: acc0)
     (simp_all add: veryDistantPairStep_def veryDistantEnergy_def Let_def)

lemma calculateEnergy_heap:
  "snd (calculateEnergy S h cs vs) =
     (\<lambda>a. if a \<in> set cs
          then (h a)\<lparr>lMP2PairEnergy := pairEnergy S (h a) + deltaPNO (h a)\<rparr> else h a)"
  by (simp add: calculateEnergy_def Let_def closeLoop_heap)

lemma calculateEnergy_vector:
  "fst (calculateEnergy S h cs vs) =
     [sum_list (map (\<lambda>a. pairEnergy S (h a)) cs),
      sum_list (map (\<lambda>a. veryDistantEnergy (h a)) vs),
      sum_list (map (\<lambda>a. deltaPNO (h a)) cs)]"
proof -
  let ?h1 = "fst (foldl (closePairStep S) (h, 0) cs)"
  have v: "map (\<lambda>a. veryDistantEnergy (?h1 a)) vs = map (\<lambda>a. veryDistantEnergy (h a)) vs"
    by (rule map_cong) (simp_all add: closeLoop_heap veryDistantEnergy_def)
  have d: "map (\<lambda>a. deltaPNO (?h1 a)) cs = map (\<lambda>a. deltaPNO (h a)) cs"
    by (rule map_cong) (simp_all add: closeLoop_heap)
  show ?thesis
    by (simp add: calculateEnergy_def Let_def closeLoop_sum vdLoop_sum foldl_add_sum v d)
qed

text \<open>
  C3, as the code has it. The energy vector has three components: the sum over the close and
  distant pairs of \<open>ssScaling * ssEnergy + osScaling * osEnergy\<close>, without the PNO truncation
  correction; the sum over the very distant pairs of the semicanonical MP2 pair energy when
  it is not zero and of the dipole pair energy otherwise; and the sum of \<open>deltaPNO\<close> over the
  close and distant pairs.
\<close>

theorem calculateEnergy_components:
  "fst (calculateEnergy settings h closePairs veryDistantPairs) =
     [sum_list (map (\<lambda>a. ssScaling settings * ssEnergy (h a) + osScaling settings * osEnergy (h a))
                  closePairs),
      sum_list (map (\<lambda>a. if scMP2PairEnergy (h a) \<noteq> 0 then scMP2PairEnergy (h a)
                         else dipolePairEnergy (h a)) veryDistantPairs),
      sum_list (map (\<lambda>a. deltaPNO (h a)) closePairs)]"
  by (simp add: calculateEnergy_vector pairEnergy_def veryDistantEnergy_def)

theorem calculateEnergy_components_witness:
  "fst (calculateEnergy exSettings exHeap [0] [1]) = [11, 1 / 8, 1 / 4]"
  using calculateEnergy_components [of exSettings exHeap "[0]" "[1]"]
  by (simp add: ex_defs ssEnergy_def osEnergy_def matrix_defs)

text \<open>
  C3, as the claim words it, fails: for one close pair with pair energy 11 and
  \<open>deltaPNO = 1/4\<close> the first component is 11, not 11 + 1/4.
\<close>

theorem first_component_counterexample:
  "hd (fst (calculateEnergy exSettings exHeap [0] [1])) \<noteq> specFirstComponent exSettings exHeap [0]"
  by (simp add: energy_defs specFirstComponent_def ex_defs matrix_defs Let_def)

text \<open>
  C6. For every pair of the first list, the same-spin energy is \<open>(1 if i = j else 2)\<close> times
  the sum of the coefficient-wise product of \<open>t_ij - t_ij\<^sup>T\<close> and \<open>k_ij\<close>, the opposite-spin
  energy is the same factor times the sum of the coefficient-wise product of \<open>t_ij\<close> and
  \<open>k_ij\<close>, and the pair's field \<open>lMP2PairEnergy\<close> receives
  \<open>ssScaling * ssEnergy + osScaling * osEnergy + deltaPNO\<close>.
\<close>

theorem pair_energy_stored:
  assumes "a \<in> set closePairs"
  shows "ssEnergy (h a) = (if pair_i (h a) = pair_j (h a) then 1 else 2)
             * mat_sum (cwiseProduct (mat_sub (t_ij (h a)) (transpose (t_ij (h a)))) (k_ij (h a)))
       \<and> osEnergy (h a) = (if pair_i (h a) = pair_j (h a) then 1 else 2)
             * mat_sum (cwiseProduct (t_ij (h a)) (k_ij (h a)))
       \<and> lMP2PairEnergy (snd (calculateEnergy settings h closePairs veryDistantPairs) a) =
           ssScaling settings * ssEnergy (h a) + osScaling settings * osEnergy (h a) + deltaPNO (h a)"
  using assms by (simp add: calculateEnergy_heap pairEnergy_def ssEnergy_def osEnergy_def)

theorem pair_energy_stored_witness:
  "(0::nat) \<in> set [0] \<and> ssEnergy (exHeap 0) = - 1 \<and> osEnergy (exHeap 0) = 12
     \<and> lMP2PairEnergy (snd (calculateEnergy exSettings exHeap [0] [1]) 0) = 45 / 4"
  using pair_energy_stored [of 0 "[0]" exHeap exSettings "[1]"]
  by (simp add: ex_defs ssEnergy_def osEnergy_def matrix_defs)

text \<open>
  C8. A call of \<open>calculateEnergy\<close> changes nothing in the heap but the field
  \<open>lMP2PairEnergy\<close> of pairs: every pair object after the call is the object before the call
  with at most that field rewritten; amplitudes, exchange integrals, uncoupled term,
  \<open>deltaPNO\<close> and type are as before.
\<close>

theorem calculateEnergy_frame:
  "snd (calculateEnergy settings h closePairs veryDistantPairs) a =
       (h a)\<lparr>lMP2PairEnergy := lMP2PairEnergy (snd (calculateEnergy settings h closePairs veryDistantPairs) a)\<rparr>
   \<and> t_ij (snd (calculateEnergy settings h closePairs veryDistantPairs) a) = t_ij (h a)
   \<and> k_ij (snd (calculateEnergy settings h closePairs veryDistantPairs) a) = k_ij (h a)
   \<and> uncoupledTerm (snd (calculateEnergy settings h closePairs veryDistantPairs) a) = uncoupledTerm (h a)
   \<and> deltaPNO (snd (calculateEnergy settings h closePairs veryDistantPairs) a) = deltaPNO (h a)
   \<and> pairType (snd (calculateEnergy settings h closePairs veryDistantPairs) a) = pairType (h a)"
  by (simp add: calculateEnergy_heap)

text \<open>
  C9. A second call of \<open>calculateEnergy\<close> on the same lists, on the heap the first call
  left, returns the same energy vector.
\<close>

theorem calculateEnergy_twice:
  "fst (calculateEnergy settings (snd (calculateEnergy settings h closePairs veryDistantPairs))
          closePairs veryDistantPairs)
     = fst (calculateEnergy settings h closePairs veryDistantPairs)"
proof -
  let ?h1 = "snd (calculateEnergy settings h closePairs veryDistantPairs)"
  have p: "pairEnergy settings (?h1 a) = pairEnergy settings (h a)" for a
    by (simp add: calculateEnergy_heap pairEnergy_def ssEnergy_def osEnergy_def)
  have v: "veryDistantEnergy (?h1 a) = veryDistantEnergy (h a)" for a
    by (simp add: calculateEnergy_heap veryDistantEnergy_def)
  have d: "deltaPNO (?h1 a) = deltaPNO (h a)" for a
    by (simp add: calculateEnergy_heap)
  show ?thesis
    by (simp only: calculateEnergy_vector p v d)
qed

section \<open>The accumulators of the coupling sum\<close>

lemma map2_swap_left:
  assumes "\<And>x y z. f (g x y) z = g' (f' x z) y"
  shows "map2 f (map2 g xs ys) zs = map2 g' (map2 f' xs zs) ys"
proof (induction xs arbitrary: ys zs)
  case Nil
  show ?case by simp
next
  case (Cons x xs)
  show ?case
    by (cases ys; cases zs) (simp_all add: assms Cons.IH)
qed

lemma map2_assoc_right:
  assumes "\<And>x y z. f x (g y z) = g' (f' x y) z"
  shows "map2 f xs (map2 g ys zs) = map2 g' (map2 f' xs ys) zs"
proof (induction xs arbitrary: ys zs)
  case Nil
  show ?case by simp
next
  case (Cons x xs)
  show ?case
    by (cases ys; cases zs) (simp_all add: assms Cons.IH)
qed

lemma add_sub_left: "mat_add (mat_sub A M) B = mat_sub (mat_add A B) M"
  unfolding mat_add_def mat_sub_def cwise_def
  by (rule map2_swap_left, rule map2_swap_left) simp

lemma add_sub_right: "mat_add A (mat_sub B M) = mat_sub (mat_add A B) M"
  unfolding mat_add_def mat_sub_def cwise_def
  by (rule map2_assoc_right, rule map2_assoc_right) simp

lemma foldl_add_sub: "foldl mat_add (mat_sub A M) Bs = mat_sub (foldl mat_add A Bs) M"
  by (induction Bs arbitrary: A) (simp_all add: add_sub_left)

lemma foldl_add_update:
  "t < length Bs \<Longrightarrow> foldl mat_add A (Bs[t := mat_sub (Bs ! t) M]) = mat_sub (foldl mat_add A Bs) M"
proof (induction Bs arbitrary: A t)
  case Nil
  then show ?case by simp
next
  case (Cons B Bs)
  show ?case
  proof (cases t)
    case 0
    then show ?thesis by (simp add: add_sub_right foldl_add_sub)
  next
    case (Suc t')
    with Cons.prems have "t' < length Bs" by simp
    with Suc show ?thesis by (simp add: Cons.IH)
  qed
qed

lemma merge_update:
  "t < length incs \<Longrightarrow>
     mergeIncrements (incs[t := mat_sub (incs ! t) M]) = mat_sub (mergeIncrements incs) M"
proof (cases incs)
  case Nil
  assume "t < length incs"
  with Nil show ?thesis by simp
next
  case (Cons A Bs)
  assume t: "t < length incs"
  show ?thesis
  proof (cases t)
    case 0
    with Cons show ?thesis by (simp add: foldl_add_sub)
  next
    case (Suc t')
    with t Cons have "t' < length Bs" by simp
    with Suc Cons show ?thesis by (simp add: foldl_add_update)
  qed
qed

lemma length_subtractFrom [simp]: "length (subtractFrom t term incs) = length incs"
  by (simp add: subtractFrom_def split: option.splits)

lemma merge_subtractFrom:
  "t < length incs \<Longrightarrow>
     mergeIncrements (subtractFrom t term incs) = foldl mat_sub (mergeIncrements incs) (termList term)"
  by (simp add: subtractFrom_def termList_def merge_update split: option.splits)

lemma length_couplingIteration [simp]:
  "length (couplingIteration ctrl h i j t cs incs) = length incs"
  by (simp add: couplingIteration_def)

lemma merge_couplingIteration:
  "t < length incs \<Longrightarrow>
     mergeIncrements (couplingIteration ctrl h i j t cs incs) =
       foldl mat_sub (mergeIncrements incs) (termList (kjTerm ctrl h i j cs) @ termList (ikTerm ctrl h i j cs))"
  by (simp add: couplingIteration_def merge_subtractFrom)

lemma merge_couplingLoop:
  assumes "\<forall>d < length css. threadNum ctrl n (index + d) < length incs"
  shows "mergeIncrements (couplingLoop ctrl h i j n index css incs) =
       foldl mat_sub (mergeIncrements incs)
         (concat (map (\<lambda>cs. termList (kjTerm ctrl h i j cs) @ termList (ikTerm ctrl h i j cs)) css))"
  using assms
proof (induction css arbitrary: index incs)
  case Nil
  show ?case by simp
next
  case (Cons cs css)
  from Cons.prems have t0: "threadNum ctrl n index < length incs" by force
  have rest: "\<forall>d < length css. threadNum ctrl n (Suc index + d)
                 < length (couplingIteration ctrl h i j (threadNum ctrl n index) cs incs)"
  proof (intro allI impI)
    fix d assume "d < length css"
    then have "Suc d < length (cs # css)" by simp
    with Cons.prems have "threadNum ctrl n (index + Suc d) < length incs" by blast
    then show "threadNum ctrl n (Suc index + d)
                 < length (couplingIteration ctrl h i j (threadNum ctrl n index) cs incs)"
      by simp
  qed
  show ?case
    by (simp add: Cons.IH [OF rest] merge_couplingIteration [OF t0])
qed

lemma map2_zero_row: "length row = c \<Longrightarrow> map2 (+) row (replicate c (0::real)) = row"
  by (induction row arbitrary: c) auto

lemma mat_add_zero_rows:
  "list_all (\<lambda>row. length row = c) A \<Longrightarrow>
     map2 (map2 (+)) A (replicate (length A) (replicate c (0::real))) = A"
  by (induction A) (simp_all add: map2_zero_row)

lemma mat_add_MatrixZero:
  assumes "is_matrix r c A"
  shows "mat_add A (MatrixZero (rows A) (cols A)) = A"
proof (cases A)
  case Nil
  then show ?thesis by (simp add: mat_add_def cwise_def MatrixZero_def rows_def)
next
  case (Cons row A')
  with assms have "list_all (\<lambda>row'. length row' = length row) A"
    by (simp add: is_matrix_def list_all_iff)
  then have "map2 (map2 (+)) A (replicate (length A) (replicate (length row) (0::real))) = A"
    by (rule mat_add_zero_rows)
  with Cons show ?thesis
    by (simp add: mat_add_def cwise_def MatrixZero_def rows_def cols_def)
qed

lemma merge_initial:
  assumes "is_matrix r c A"
  shows "mergeIncrements (A # replicate m (MatrixZero (rows A) (cols A))) = A"
  by (induction m) (simp_all add: mat_add_MatrixZero [OF assms])

lemma is_matrix_cwise:
  "is_matrix r c A \<Longrightarrow> is_matrix r c B \<Longrightarrow> is_matrix r c (cwise f A B)"
  by (auto simp: is_matrix_def cwise_def list_all_iff set_zip)

section \<open>What a sweep reads and writes\<close>

lemma kjTerm_cong:
  assumes "\<forall>c \<in> set (kjRead ctrl i cs). t_ij (h c) = t_ij (h' c)"
  shows "kjTerm ctrl h i j cs = kjTerm ctrl h' i j cs"
  using assms by (auto simp: kjTerm_def kjRead_def Let_def split: option.splits)

lemma ikTerm_cong:
  assumes "\<forall>c \<in> set (ikRead ctrl j cs). t_ij (h c) = t_ij (h' c)"
  shows "ikTerm ctrl h i j cs = ikTerm ctrl h' i j cs"
  using assms by (auto simp: ikTerm_def ikRead_def Let_def split: option.splits)

lemma couplingTerms_residual_field:
  "couplingTerms ctrl (h(a := (h a)\<lparr>residual := r\<rparr>)) b = couplingTerms ctrl h b"
proof -
  let ?h1 = "h(a := (h a)\<lparr>residual := r\<rparr>)"
  have "kjTerm ctrl ?h1 i j cs = kjTerm ctrl h i j cs" for i j cs
    by (rule kjTerm_cong) simp
  moreover have "ikTerm ctrl ?h1 i j cs = ikTerm ctrl h i j cs" for i j cs
    by (rule ikTerm_cong) simp
  ultimately show ?thesis
    by (simp add: couplingTerms_def)
qed

lemma pairResidual_closed:
  assumes k: "is_matrix r c (k_ij (h a))" and u: "is_matrix r c (uncoupledTerm (h a))"
    and t: "is_matrix r c (t_ij (h a))"
    and thr: "\<forall>index < length (coupledPairs (h a)).
                threadNum ctrl (length (coupledPairs (h a))) index < Suc (nThreads ctrl - 1)"
  shows "pairResidual ctrl h a =
           foldl mat_sub (mat_add (k_ij (h a)) (cwiseProduct (uncoupledTerm (h a)) (t_ij (h a))))
             (couplingTerms ctrl h a)"
proof -
  let ?h1 = "h(a := (h a)\<lparr>residual := k_ij (h a)\<rparr>)"
  let ?r0 = "mat_add (k_ij (h a)) (cwiseProduct (uncoupledTerm (h a)) (t_ij (h a)))"
  have m: "is_matrix r c ?r0"
    unfolding mat_add_def cwiseProduct_def by (intro is_matrix_cwise k u t)
  let ?incs = "?r0 # replicate (nThreads ctrl - 1) (MatrixZero (rows ?r0) (cols ?r0))"
  have "\<forall>d < length (coupledPairs (h a)).
          threadNum ctrl (length (coupledPairs (h a))) (0 + d) < length ?incs"
    using thr by simp
  from merge_couplingLoop [OF this, of ?h1 "pair_i (h a)" "pair_j (h a)"]
  have "mergeIncrements (couplingLoop ctrl ?h1 (pair_i (h a)) (pair_j (h a))
            (length (coupledPairs (h a))) 0 (coupledPairs (h a)) ?incs)
        = foldl mat_sub ?r0 (couplingTerms ctrl ?h1 a)"
    by (simp add: couplingTerms_def merge_initial [OF m] del: mergeIncrements.simps)
  then show ?thesis
    by (simp add: pairResidual_def computeResidual_def Let_def couplingTerms_residual_field
          del: mergeIncrements.simps)
qed

lemma couplingLoop_cong:
  assumes "\<forall>cs \<in> set css. kjTerm ctrl h i j cs = kjTerm ctrl h' i j cs
                          \<and> ikTerm ctrl h i j cs = ikTerm ctrl h' i j cs"
  shows "couplingLoop ctrl h i j n index css incs = couplingLoop ctrl h' i j n index css incs"
  using assms
  by (induction css arbitrary: index incs) (simp_all add: couplingIteration_def)

lemma computeResidual_cong:
  assumes "k_ij (h a) = k_ij (h' a)" "uncoupledTerm (h a) = uncoupledTerm (h' a)"
    "t_ij (h a) = t_ij (h' a)" "pair_i (h a) = pair_i (h' a)" "pair_j (h a) = pair_j (h' a)"
    "coupledPairs (h a) = coupledPairs (h' a)" "residual (h a) = residual (h' a)"
    and reads: "\<forall>c \<in> set (companionsRead ctrl (h a)). t_ij (h c) = t_ij (h' c)"
  shows "computeResidual ctrl h a = computeResidual ctrl h' a"
proof -
  have "\<forall>cs \<in> set (coupledPairs (h a)).
          kjTerm ctrl h (pair_i (h a)) (pair_j (h a)) cs = kjTerm ctrl h' (pair_i (h a)) (pair_j (h a)) cs
        \<and> ikTerm ctrl h (pair_i (h a)) (pair_j (h a)) cs = ikTerm ctrl h' (pair_i (h a)) (pair_j (h a)) cs"
  proof
    fix cs assume cs: "cs \<in> set (coupledPairs (h a))"
    have "\<forall>c \<in> set (kjRead ctrl (pair_i (h a)) cs). t_ij (h c) = t_ij (h' c)"
      using reads cs by (auto simp: companionsRead_def)
    moreover have "\<forall>c \<in> set (ikRead ctrl (pair_j (h a)) cs). t_ij (h c) = t_ij (h' c)"
      using reads cs by (auto simp: companionsRead_def)
    ultimately show "kjTerm ctrl h (pair_i (h a)) (pair_j (h a)) cs = kjTerm ctrl h' (pair_i (h a)) (pair_j (h a)) cs
        \<and> ikTerm ctrl h (pair_i (h a)) (pair_j (h a)) cs = ikTerm ctrl h' (pair_i (h a)) (pair_j (h a)) cs"
      by (simp add: kjTerm_cong ikTerm_cong)
  qed
  from couplingLoop_cong [OF this] assms(1-7)
  show ?thesis
    by (simp add: computeResidual_def Let_def del: mergeIncrements.simps)
qed

lemma pairResidual_cong:
  assumes "k_ij (h a) = k_ij (h' a)" "uncoupledTerm (h a) = uncoupledTerm (h' a)"
    "t_ij (h a) = t_ij (h' a)" "pair_i (h a) = pair_i (h' a)" "pair_j (h a) = pair_j (h' a)"
    "coupledPairs (h a) = coupledPairs (h' a)"
    and reads: "\<forall>c \<in> set (companionsRead ctrl (h a)). t_ij (h c) = t_ij (h' c)"
  shows "pairResidual ctrl h a = pairResidual ctrl h' a"
  unfolding pairResidual_def
proof (rule computeResidual_cong)
  show "\<forall>c \<in> set (companionsRead ctrl ((h(a := (h a)\<lparr>residual := k_ij (h a)\<rparr>)) a)).
          t_ij ((h(a := (h a)\<lparr>residual := k_ij (h a)\<rparr>)) c)
            = t_ij ((h'(a := (h' a)\<lparr>residual := k_ij (h' a)\<rparr>)) c)"
    using reads by (simp add: companionsRead_def)
qed (simp_all add: assms(1-6))

lemma pairStep_explicit:
  "pairStep ctrl s a =
     (if pairType (fst s a) = VERY_DISTANT then s
      else applyUpdate s (a, pairResidual ctrl (fst s) a))"
  by (simp add: pairStep_def applyUpdate_def Let_def pairResidual_def)

lemma applyUpdate_other: "b \<noteq> fst upd \<Longrightarrow> fst (applyUpdate s upd) b = fst s b"
  by (simp add: applyUpdate_def Let_def)

lemma pairStep_frame:
  "(fst (pairStep ctrl s a) b)\<lparr>residual := residual (fst s b), t_ij := t_ij (fst s b)\<rparr> = fst s b"
  by (simp add: pairStep_explicit applyUpdate_def Let_def)

lemma pairStep_untouched:
  "b \<noteq> a \<or> pairType (fst s b) = VERY_DISTANT \<Longrightarrow> fst (pairStep ctrl s a) b = fst s b"
  by (auto simp: pairStep_explicit applyUpdate_def Let_def)

lemma pairStep_pairType: "pairType (fst (pairStep ctrl s a) b) = pairType (fst s b)"
  by (simp add: pairStep_explicit applyUpdate_def Let_def)

lemma pairStep_k_ij: "k_ij (fst (pairStep ctrl s a) b) = k_ij (fst s b)"
  by (simp add: pairStep_explicit applyUpdate_def Let_def)

lemma sweepLoop_frame:
  "(fst (foldl (pairStep ctrl) s ps) b)\<lparr>residual := residual (fst s b), t_ij := t_ij (fst s b)\<rparr>
     = fst s b"
proof (induction ps arbitrary: s)
  case Nil
  show ?case by simp
next
  case (Cons a ps)
  let ?s1 = "pairStep ctrl s a"
  let ?h' = "fst (foldl (pairStep ctrl) ?s1 ps)"
  have 1: "(?h' b)\<lparr>residual := residual (fst ?s1 b), t_ij := t_ij (fst ?s1 b)\<rparr> = fst ?s1 b"
    by (rule Cons.IH)
  have 2: "(fst ?s1 b)\<lparr>residual := residual (fst s b), t_ij := t_ij (fst s b)\<rparr> = fst s b"
    by (rule pairStep_frame)
  have "(?h' b)\<lparr>residual := residual (fst s b), t_ij := t_ij (fst s b)\<rparr>
      = ((?h' b)\<lparr>residual := residual (fst ?s1 b), t_ij := t_ij (fst ?s1 b)\<rparr>)
           \<lparr>residual := residual (fst s b), t_ij := t_ij (fst s b)\<rparr>"
    by simp
  also have "\<dots> = fst s b"
    by (simp only: 1 2)
  finally show ?case by simp
qed

lemma sweepLoop_untouched:
  "b \<notin> set ps \<or> pairType (fst s b) = VERY_DISTANT \<Longrightarrow> fst (foldl (pairStep ctrl) s ps) b = fst s b"
proof (induction ps arbitrary: s)
  case Nil
  show ?case by simp
next
  case (Cons a ps)
  from Cons.prems have 1: "b \<noteq> a \<or> pairType (fst s b) = VERY_DISTANT" by auto
  from Cons.prems have "b \<notin> set ps \<or> pairType (fst (pairStep ctrl s a) b) = VERY_DISTANT"
    by (auto simp: pairStep_pairType)
  then have "fst (foldl (pairStep ctrl) (pairStep ctrl s a) ps) b = fst (pairStep ctrl s a) b"
    by (rule Cons.IH)
  with pairStep_untouched [OF 1] show ?case by simp
qed


section \<open>The sweep and the two-phase cycle\<close>

lemma sweep_jacobi_general:
  assumes "\<forall>b. b \<notin> set processed \<or> pairType (h b) = VERY_DISTANT \<longrightarrow> fst s b = h b"
    and "distinct (processed @ ps)"
    and "readsOnlyPending ctrl h processed ps"
  shows "foldl (pairStep ctrl) s ps =
         foldl applyUpdate s
           (zip (filter (\<lambda>a. pairType (h a) \<noteq> VERY_DISTANT) ps)
                (map (pairResidual ctrl h) (filter (\<lambda>a. pairType (h a) \<noteq> VERY_DISTANT) ps)))"
  using assms
proof (induction ps arbitrary: s processed)
  case Nil
  show ?case by simp
next
  case (Cons a ps)
  from Cons.prems(2) have a_new: "a \<notin> set processed" by simp
  with Cons.prems(1) have sa: "fst s a = h a" by simp
  from Cons.prems(2) have dist: "distinct ((processed @ [a]) @ ps)" by simp
  from Cons.prems(3) have pend: "readsOnlyPending ctrl h (processed @ [a]) ps" by simp
  show ?case
  proof (cases "pairType (h a) = VERY_DISTANT")
    case True
    have agree: "\<forall>b. b \<notin> set (processed @ [a]) \<or> pairType (h b) = VERY_DISTANT \<longrightarrow> fst s b = h b"
      using Cons.prems(1) by auto
    from True sa have "pairStep ctrl s a = s" by (simp add: pairStep_explicit)
    with True Cons.IH [OF agree dist pend] show ?thesis by simp
  next
    case False
    with Cons.prems(3) have reads:
      "\<forall>c \<in> set (companionsRead ctrl (h a)). c \<notin> set processed \<or> pairType (h c) = VERY_DISTANT"
      by (simp add: list_all_iff)
    have "\<forall>c \<in> set (companionsRead ctrl (fst s a)). t_ij (fst s c) = t_ij (h c)"
      using reads Cons.prems(1) sa by auto
    then have res: "pairResidual ctrl (fst s) a = pairResidual ctrl h a"
      by (intro pairResidual_cong) (simp_all add: sa)
    let ?s1 = "applyUpdate s (a, pairResidual ctrl h a)"
    from False sa res have step: "pairStep ctrl s a = ?s1" by (simp add: pairStep_explicit)
    have agree: "\<forall>b. b \<notin> set (processed @ [a]) \<or> pairType (h b) = VERY_DISTANT \<longrightarrow> fst ?s1 b = h b"
    proof (intro allI impI)
      fix b assume b: "b \<notin> set (processed @ [a]) \<or> pairType (h b) = VERY_DISTANT"
      with False have "b \<noteq> a" by auto
      then have "fst ?s1 b = fst s b" by (simp add: applyUpdate_other)
      with b Cons.prems(1) show "fst ?s1 b = h b" by auto
    qed
    from False step Cons.IH [OF agree dist pend] show ?thesis by simp
  qed
qed

lemma sweep_is_jacobi:
  assumes "distinct orbitalPairs" and "readsOnlyPending ctrl h [] orbitalPairs"
  shows "sweep ctrl h orbitalPairs = jacobiCycle ctrl h orbitalPairs"
  using sweep_jacobi_general [of "[]" h "(h, 0)" orbitalPairs ctrl] assms
  by (simp add: sweep_def jacobiCycle_def Let_def)


section \<open>The residual field\<close>

lemma pairStep_residual:
  "pairType (fst s a) \<noteq> VERY_DISTANT \<Longrightarrow> residual (fst (pairStep ctrl s a) a) = k_ij (fst s a)"
  by (simp add: pairStep_explicit applyUpdate_def Let_def)

lemma sweepLoop_pairType: "pairType (fst (foldl (pairStep ctrl) s ps) b) = pairType (fst s b)"
  by (induction ps arbitrary: s) (simp_all add: pairStep_pairType)

lemma sweepLoop_k_ij: "k_ij (fst (foldl (pairStep ctrl) s ps) b) = k_ij (fst s b)"
  by (induction ps arbitrary: s) (simp_all add: pairStep_k_ij)

lemma sweepLoop_residual:
  "a \<in> set ps \<Longrightarrow> pairType (fst s a) \<noteq> VERY_DISTANT \<Longrightarrow>
     residual (fst (foldl (pairStep ctrl) s ps) a) = k_ij (fst s a)"
proof (induction ps arbitrary: s)
  case Nil
  then show ?case by simp
next
  case (Cons b ps)
  let ?s1 = "pairStep ctrl s b"
  have ty: "pairType (fst ?s1 a) \<noteq> VERY_DISTANT"
    using Cons.prems(2) by (simp add: pairStep_pairType)
  show ?case
  proof (cases "a \<in> set ps")
    case True
    from Cons.IH [OF True ty] show ?thesis by (simp add: pairStep_k_ij)
  next
    case False
    with Cons.prems(1) have ab: "a = b" by simp
    from False have "fst (foldl (pairStep ctrl) ?s1 ps) a = fst ?s1 a"
      by (simp add: sweepLoop_untouched)
    with ab Cons.prems(2) show ?thesis by (simp add: pairStep_residual)
  qed
qed

lemma cycleBody_heap:
  "pairHeap (cycleBody ctrl ops vds s) b =
     (let h2 = snd (calculateEnergy ctrl (fst (sweep ctrl (pairHeap s) ops)) ops vds)
      in if diisStartResidual ctrl > snd (sweep ctrl (pairHeap s) ops)
         then applyDIIS h2 ops (snd (diisOptimize ctrl (diis s) h2 ops)) b
         else h2 b)"
  by (simp add: cycleBody_def Let_def)

lemma applyDIIS_residual: "residual (applyDIIS h ops new b) = residual (h b)"
  by (simp add: applyDIIS_def split: option.splits)

lemma applyDIIS_k_ij: "k_ij (applyDIIS h ops new b) = k_ij (h b)"
  by (simp add: applyDIIS_def split: option.splits)

lemma applyDIIS_untouched: "b \<notin> set ops \<Longrightarrow> applyDIIS h ops new b = h b"
  by (simp add: applyDIIS_def)

lemma cycleBody_residual:
  "residual (pairHeap (cycleBody ctrl ops vds s) b) = residual (fst (sweep ctrl (pairHeap s) ops) b)"
  by (simp add: cycleBody_heap Let_def applyDIIS_residual calculateEnergy_heap)

lemma cycleBody_k_ij:
  "k_ij (pairHeap (cycleBody ctrl ops vds s) b) = k_ij (pairHeap s b)"
  by (simp add: cycleBody_heap Let_def applyDIIS_k_ij calculateEnergy_heap sweep_def sweepLoop_k_ij)

lemma cycleBody_untouched:
  "b \<notin> set ops \<Longrightarrow> pairHeap (cycleBody ctrl ops vds s) b = pairHeap s b"
  by (simp add: cycleBody_heap Let_def applyDIIS_untouched calculateEnergy_heap sweep_def
        sweepLoop_untouched)

text \<open>
  C10. After the sweep of a cycle, and after the whole cycle (energy evaluation and
  accelerator included), the field \<open>residual\<close> of every pair of the list that is not very
  distant equals the pair's \<open>k_ij\<close>, which the cycle leaves as it was: the residual that drives
  the update lives in the temporary only.
\<close>

theorem residual_field_holds_k_ij:
  assumes "a \<in> set orbitalPairs" and "pairType (pairHeap s a) \<noteq> VERY_DISTANT"
  shows "residual (fst (sweep ctrl (pairHeap s) orbitalPairs) a) = k_ij (pairHeap s a)
       \<and> residual (pairHeap (cycleBody ctrl orbitalPairs veryDistantPairs s) a)
           = k_ij (pairHeap (cycleBody ctrl orbitalPairs veryDistantPairs s) a)
       \<and> k_ij (pairHeap (cycleBody ctrl orbitalPairs veryDistantPairs s) a) = k_ij (pairHeap s a)"
  using assms
  by (simp add: cycleBody_residual cycleBody_k_ij sweep_def sweepLoop_residual)

theorem residual_field_holds_k_ij_witness:
  "residual (pairHeap (cycleBody exSettings [0, 1, 2] [] (exInitial exSystem)) 2) = [[1 / 10]]
     \<and> k_ij (pairHeap (cycleBody exSettings [0, 1, 2] [] (exInitial exSystem)) 2) = [[1 / 10]]
     \<and> pairResidual exSettings (fst (sweep exSettings exSystem [0, 1])) 2 = [[221 / 2000]]"
proof -
  have 1: "(2::nat) \<in> set [0, 1, 2]" by simp
  have 2: "pairType (pairHeap (exInitial exSystem) 2) \<noteq> VERY_DISTANT"
    by (simp add: exInitial_def ex_defs)
  have 3: "k_ij (pairHeap (exInitial exSystem) 2) = [[1 / 10]]"
    by (simp add: exInitial_def ex_defs)
  have 4: "pairResidual exSettings (fst (sweep exSettings exSystem [0, 1])) 2 = [[221 / 2000]]"
    by (simp add: ex_defs sweep_defs matrix_defs Let_def)
  from residual_field_holds_k_ij [OF 1 2, of exSettings "[]"] 3 4 show ?thesis by simp
qed


section \<open>Very distant pairs\<close>

lemma sortLoop:
  "foldl (sortPair h) (cs, vs) ps =
     (cs @ filter (\<lambda>a. pairType (h a) \<noteq> VERY_DISTANT) ps,
      vs @ filter (\<lambda>a. pairType (h a) = VERY_DISTANT) ps)"
  by (induction ps arbitrary: cs vs) (simp_all add: sortPair_def Let_def)

lemma sortPairs_filter:
  "sortPairs h ps =
     (filter (\<lambda>a. pairType (h a) \<noteq> VERY_DISTANT) ps,
      filter (\<lambda>a. pairType (h a) = VERY_DISTANT) ps)"
  by (simp add: sortPairs_def sortLoop)

lemma amplitudeLoop_untouched:
  assumes run: "amplitudeLoop ctrl ops vds s = Some r"
  shows "\<forall>s'. r = Inr s' \<longrightarrow> (\<forall>b. b \<notin> set ops \<longrightarrow> pairHeap s' b = pairHeap s b)"
proof -
  define P where "P = (\<lambda>(c::'a LocalMP2) (ps::address list) (vs::address list)
        (s0::'a loopState) (r0::error + 'a loopState).
      \<forall>s'. r0 = Inr s' \<longrightarrow> (\<forall>b. b \<notin> set ps \<longrightarrow> pairHeap s' b = pairHeap s0 b))"
  have "P ctrl ops vds s r"
  proof (rule amplitudeLoop.raw_induct [where P = P, OF _ run])
    fix loop :: "'a LocalMP2 \<Rightarrow> address list \<Rightarrow> address list \<Rightarrow> 'a loopState
                   \<Rightarrow> (error + 'a loopState) option"
    fix c ps vs s0 r0
    assume IH: "\<And>c ps vs s0 r0. loop c ps vs s0 = Some r0 \<Longrightarrow> P c ps vs s0 r0"
      and step: "(if maxResidual c < largestResidual s0
                  then let s' = cycleBody c ps vs s0
                       in if maxCycles c - 1 < cycle s' then Some (Inl (SerenityError (cycle s')))
                          else loop c ps vs s'
                  else Some (Inr s0)) = Some r0"
    show "P c ps vs s0 r0"
    proof (cases "maxResidual c < largestResidual s0")
      case False
      with step show ?thesis by (auto simp: P_def)
    next
      case True
      let ?s1 = "cycleBody c ps vs s0"
      show ?thesis
      proof (cases "maxCycles c - 1 < cycle ?s1")
        case True
        with \<open>maxResidual c < largestResidual s0\<close> step show ?thesis
          by (auto simp: Let_def P_def)
      next
        case False
        with \<open>maxResidual c < largestResidual s0\<close> step have "loop c ps vs ?s1 = Some r0"
          by (simp add: Let_def)
        from IH [OF this] show ?thesis by (simp add: P_def cycleBody_untouched)
      qed
    qed
  qed
  then show ?thesis by (simp add: P_def)
qed

lemma optimizeAmplitudes_untouched:
  assumes "optimizeAmplitudes ctrl d h ops vds = Some (Inr h')" and "b \<notin> set ops"
  shows "h' b = h b"
proof -
  let ?s0 = "\<lparr>pairHeap = h, cycle = 0, largestResidual = 10, diis = d\<rparr>"
  from assms(1) obtain r where r: "amplitudeLoop ctrl ops vds ?s0 = Some r"
    and m: "map_sum id pairHeap r = Inr h'"
    by (auto simp: optimizeAmplitudes_def)
  from m obtain s' where s': "r = Inr s'" and h': "h' = pairHeap s'"
    by (cases r) auto
  from amplitudeLoop_untouched [OF r] s' assms(2) have "pairHeap s' b = pairHeap ?s0 b" by blast
  with h' show ?thesis by simp
qed

lemma calculateEnergyCorrection_result:
  assumes "calculateEnergyCorrection ctrl d h ps = Some (Inr (energies, h'))"
  shows "\<exists>hopt. optimizeAmplitudes ctrl d h (fst (sortPairs h ps)) (snd (sortPairs h ps)) = Some (Inr hopt)
          \<and> (energies, h') = calculateEnergy ctrl hopt (fst (sortPairs h ps)) (snd (sortPairs h ps))"
  using assms
  by (auto simp: calculateEnergyCorrection_def Let_def split: option.splits sum.splits)

lemma exHeap_run:
  "calculateEnergyCorrection exConverging () exHeap [0, 1]
     = Some (Inr ([- 62, 1 / 8, 1 / 4], exFinal))"
  unfolding calculateEnergyCorrection_def optimizeAmplitudes_def
  apply (simp add: sortPairs_def sortPair_def ex_defs)
  apply (subst amplitudeLoop.simps)
  apply (simp add: exConverging_def ex_defs run_defs)
  apply (subst amplitudeLoop.simps)
  apply (simp add: exConverging_def ex_defs run_defs)
  apply (subst amplitudeLoop.simps)
  apply (simp add: exConverging_def ex_defs run_defs exFinal_def fun_eq_iff)
  done

text \<open>
  C7. \<open>calculateEnergyCorrection\<close> sorts every pair of its argument into exactly one of two
  lists, the very distant pairs and all others: the two lists keep the order of the input,
  together they hold every entry of the input exactly once, and they share no pair. A very
  distant pair is skipped by the sweep, whatever list is swept. When
  \<open>calculateEnergyCorrection\<close> returns, every very distant pair is as it was before the
  call; the first and the third component of the energy vector are sums over the other
  pairs, and the second component is the sum over the very distant pairs of the
  semicanonical MP2 pair energy when it is not zero and of the dipole pair energy otherwise.
\<close>

theorem very_distant_pairs_are_not_optimized:
  "sortPairs h pairs =
     (filter (\<lambda>a. pairType (h a) \<noteq> VERY_DISTANT) pairs,
      filter (\<lambda>a. pairType (h a) = VERY_DISTANT) pairs)
   \<and> mset (fst (sortPairs h pairs)) + mset (snd (sortPairs h pairs)) = mset pairs
   \<and> set (fst (sortPairs h pairs)) \<inter> set (snd (sortPairs h pairs)) = {}
   \<and> (pairType (h a) = VERY_DISTANT \<longrightarrow> fst (sweep ctrl h orbitalPairs) a = h a)
   \<and> (pairType (h a) = VERY_DISTANT \<longrightarrow>
        calculateEnergyCorrection ctrl diis0 h pairs = Some (Inr (energies, h')) \<longrightarrow>
          h' a = h a
          \<and> energies =
              [sum_list (map (\<lambda>b. pairEnergy ctrl (h' b)) (fst (sortPairs h pairs))),
               sum_list (map (\<lambda>b. veryDistantEnergy (h b)) (snd (sortPairs h pairs))),
               sum_list (map (\<lambda>b. deltaPNO (h' b)) (fst (sortPairs h pairs)))])"
proof (intro conjI impI)
  show "sortPairs h pairs =
     (filter (\<lambda>a. pairType (h a) \<noteq> VERY_DISTANT) pairs,
      filter (\<lambda>a. pairType (h a) = VERY_DISTANT) pairs)"
    by (rule sortPairs_filter)
  show "mset (fst (sortPairs h pairs)) + mset (snd (sortPairs h pairs)) = mset pairs"
    by (induction pairs) (simp_all add: sortPairs_filter)
  show "set (fst (sortPairs h pairs)) \<inter> set (snd (sortPairs h pairs)) = {}"
    by (auto simp: sortPairs_filter)
next
  assume "pairType (h a) = VERY_DISTANT"
  then show "fst (sweep ctrl h orbitalPairs) a = h a"
    by (simp add: sweep_def sweepLoop_untouched)
next
  assume vd: "pairType (h a) = VERY_DISTANT"
    and run: "calculateEnergyCorrection ctrl diis0 h pairs = Some (Inr (energies, h'))"
  let ?cs = "fst (sortPairs h pairs)" and ?vs = "snd (sortPairs h pairs)"
  from calculateEnergyCorrection_result [OF run] obtain hopt
    where opt: "optimizeAmplitudes ctrl diis0 h ?cs ?vs = Some (Inr hopt)"
      and en: "(energies, h') = calculateEnergy ctrl hopt ?cs ?vs"
    by blast
  from vd have notin: "a \<notin> set ?cs" by (simp add: sortPairs_filter)
  have same: "b \<notin> set ?cs \<Longrightarrow> hopt b = h b" for b
    by (rule optimizeAmplitudes_untouched [OF opt])
  from en have h': "h' = snd (calculateEnergy ctrl hopt ?cs ?vs)"
    and e: "energies = fst (calculateEnergy ctrl hopt ?cs ?vs)"
    by (simp_all add: prod_eq_iff)
  from h' notin same [OF notin] show "h' a = h a"
    by (simp add: calculateEnergy_heap)
  have v: "map (\<lambda>b. veryDistantEnergy (hopt b)) ?vs = map (\<lambda>b. veryDistantEnergy (h b)) ?vs"
  proof (rule map_cong [OF refl])
    fix b assume "b \<in> set ?vs"
    then have "b \<notin> set ?cs" by (auto simp: sortPairs_filter)
    then show "veryDistantEnergy (hopt b) = veryDistantEnergy (h b)" by (simp add: same)
  qed
  have p: "pairEnergy ctrl (h' b) = pairEnergy ctrl (hopt b)" for b
    by (simp add: h' calculateEnergy_heap pairEnergy_def ssEnergy_def osEnergy_def)
  have d: "deltaPNO (h' b) = deltaPNO (hopt b)" for b
    by (simp add: h' calculateEnergy_heap)
  show "energies =
          [sum_list (map (\<lambda>b. pairEnergy ctrl (h' b)) ?cs),
           sum_list (map (\<lambda>b. veryDistantEnergy (h b)) ?vs),
           sum_list (map (\<lambda>b. deltaPNO (h' b)) ?cs)]"
    by (simp only: e calculateEnergy_vector v p d)
qed

theorem very_distant_pairs_are_not_optimized_witness:
  "sortPairs exHeap [0, 1] = ([0], [1])
     \<and> pairType (exHeap 1) = VERY_DISTANT
     \<and> fst (sweep exConverging exHeap [0, 1]) 1 = exHeap 1
     \<and> calculateEnergyCorrection exConverging () exHeap [0, 1]
          = Some (Inr ([- 62, 1 / 8, 1 / 4], exFinal))
     \<and> exFinal 1 = exHeap 1"
proof -
  have vd: "pairType (exHeap 1) = VERY_DISTANT" by (simp add: ex_defs)
  from very_distant_pairs_are_not_optimized
         [where h = exHeap and pairs = "[0, 1]" and a = 1 and ctrl = exConverging
            and orbitalPairs = "[0, 1]" and ?diis0.0 = "()"
            and energies = "[- 62, 1 / 8, 1 / 4]" and h' = exFinal]
       vd exHeap_run
  show ?thesis by (simp add: ex_defs)
qed


section \<open>The end of the iteration\<close>

lemma word_pred_less: "m \<noteq> 0 \<Longrightarrow> m - 1 < (m::32 word)"
  by (simp add: word_less_nat_alt unat_minus_one unat_gt_0)

lemma cycleBody_cycle: "cycle (cycleBody ctrl ops vds s) = cycle s + 1"
  by (simp add: cycleBody_def Let_def)

lemma last_cycle_cancels:
  assumes "maxResidual ctrl < largestResidual s" and "cycle s + 1 = maxCycles ctrl"
    and "maxCycles ctrl \<noteq> 0"
  shows "amplitudeLoop ctrl ops vds s = Some (Inl (SerenityError (maxCycles ctrl)))"
  using assms word_pred_less [of "maxCycles ctrl"]
  by (subst amplitudeLoop.simps) (simp add: Let_def cycleBody_cycle)

lemma amplitudeLoop_terminates:
  assumes "cycle s < maxCycles ctrl"
  shows "\<exists>r. amplitudeLoop ctrl ops vds s = Some r"
  using assms
proof (induction "unat (maxCycles ctrl) - unat (cycle s)" arbitrary: s rule: less_induct)
  case less
  show ?case
  proof (cases "maxResidual ctrl < largestResidual s")
    case False
    then show ?thesis by (subst amplitudeLoop.simps) simp
  next
    case True
    let ?s1 = "cycleBody ctrl ops vds s"
    have c1: "cycle ?s1 = cycle s + 1" by (rule cycleBody_cycle)
    show ?thesis
    proof (cases "maxCycles ctrl - 1 < cycle ?s1")
      case True
      with \<open>maxResidual ctrl < largestResidual s\<close> show ?thesis
        by (subst amplitudeLoop.simps) (simp add: Let_def)
    next
      case False
      from less.prems have lt0: "unat (cycle s) < unat (maxCycles ctrl)"
        by (simp add: word_less_nat_alt)
      then have nz: "maxCycles ctrl \<noteq> 0" by auto
      have "unat (maxCycles ctrl) < 2 ^ LENGTH(32)" by (rule unsigned_less)
      with lt0 have "unat (cycle s) + unat (1::32 word) < 2 ^ LENGTH(32)" by simp
      then have u: "unat (cycle s + 1) = unat (cycle s) + 1"
        by (simp add: unat_add_lem [THEN iffD1])
      from False c1 have "cycle s + 1 \<le> maxCycles ctrl - 1" by simp
      then have "unat (cycle s + 1) \<le> unat (maxCycles ctrl - 1)" by (simp add: word_le_nat_alt)
      with nz u have "unat (cycle s) + 1 \<le> unat (maxCycles ctrl) - 1"
        by (simp add: unat_minus_one)
      with lt0 have less1: "unat (cycle s) + 1 < unat (maxCycles ctrl)" by arith
      with c1 u have lt: "cycle ?s1 < maxCycles ctrl" by (simp add: word_less_nat_alt)
      from c1 u less1
      have dec: "unat (maxCycles ctrl) - unat (cycle ?s1) < unat (maxCycles ctrl) - unat (cycle s)"
        by simp
      from less.hyps [OF dec lt] obtain r where "amplitudeLoop ctrl ops vds ?s1 = Some r" by blast
      with False \<open>maxResidual ctrl < largestResidual s\<close> show ?thesis
        by (subst amplitudeLoop.simps) (simp add: Let_def)
    qed
  qed
qed

lemma optimizeAmplitudes_terminates:
  assumes "maxCycles ctrl \<noteq> 0"
  shows "\<exists>r. optimizeAmplitudes ctrl d h ops vds = Some r"
proof -
  from assms have "cycle \<lparr>pairHeap = h, cycle = 0, largestResidual = 10, diis = d\<rparr> < maxCycles ctrl"
    by (simp add: word_neq_0_conv)
  from amplitudeLoop_terminates [OF this] show ?thesis
    by (auto simp: optimizeAmplitudes_def)
qed

text \<open>
  C2. The single-pair system of the specification with \<open>maxCycles = 2\<close> and
  \<open>maxResidual = 10\<^sup>-\<^sup>5\<close>: the second cycle ends with the largest residual 0, below the
  threshold, and the run is nevertheless cancelled with the error of the second cycle.
\<close>

theorem converged_run_is_cancelled:
  "optimizeAmplitudes exSettings () exOne [0] [] = Some (Inl (SerenityError 2))
     \<and> largestResidual (cycleBody exSettings [0] [] (cycleBody exSettings [0] [] (exInitial exOne))) = 0
     \<and> maxResidual exSettings = 1 / 100000 \<and> maxCycles exSettings = 2"
proof -
  have "optimizeAmplitudes exSettings () exOne [0] [] = Some (Inl (SerenityError 2))"
    unfolding optimizeAmplitudes_def
    apply (subst amplitudeLoop.simps)
    apply (simp add: exOne_def exOnePair_def ex_defs run_defs)
    apply (subst amplitudeLoop.simps)
    apply (simp add: exOne_def exOnePair_def ex_defs run_defs)
    done
  moreover have "largestResidual (cycleBody exSettings [0] [] (cycleBody exSettings [0] [] (exInitial exOne))) = 0"
    by (simp add: exInitial_def exOne_def exOnePair_def ex_defs run_defs)
  ultimately show ?thesis by (simp add: ex_defs)
qed


section \<open>A pair in a cycle\<close>

lemma sweep_step:
  "n < length ps \<Longrightarrow>
     sweep ctrl h (take (Suc n) ps) = pairStep ctrl (sweep ctrl h (take n ps)) (ps ! n)"
  by (simp add: sweep_def take_Suc_conv_app_nth)

lemma sweep_last_step:
  assumes "n < length ps" and "ps ! n \<notin> set (drop (Suc n) ps)"
  shows "fst (sweep ctrl h ps) (ps ! n) = fst (pairStep ctrl (sweep ctrl h (take n ps)) (ps ! n)) (ps ! n)"
proof -
  from assms(1) have "ps = take (Suc n) ps @ drop (Suc n) ps" by simp
  then have "sweep ctrl h ps
      = foldl (pairStep ctrl) (sweep ctrl h (take (Suc n) ps)) (drop (Suc n) ps)"
    unfolding sweep_def by (metis foldl_append)
  with assms(2) have "fst (sweep ctrl h ps) (ps ! n) = fst (sweep ctrl h (take (Suc n) ps)) (ps ! n)"
    by (simp add: sweepLoop_untouched)
  with assms(1) show ?thesis by (simp add: sweep_step)
qed

lemma pairStep_heap:
  assumes "pairType (fst s a) \<noteq> VERY_DISTANT"
  shows "fst (pairStep ctrl s a) =
           (fst s)(a := (fst s a)\<lparr>residual := k_ij (fst s a),
               t_ij := mat_sub (t_ij (fst s a))
                         (cwiseQuotient (pairResidual ctrl (fst s) a) (uncoupledTerm (fst s a)))\<rparr>)"
  using assms by (simp add: pairStep_explicit applyUpdate_def Let_def)

lemma cycleBody_t_ij:
  "t_ij (pairHeap (cycleBody ctrl ops vds s) a) =
     (case acceleratedAmplitudes ctrl ops vds s a of
        None \<Rightarrow> t_ij (fst (sweep ctrl (pairHeap s) ops) a)
      | Some t \<Rightarrow> t)"
  by (simp add: cycleBody_heap acceleratedAmplitudes_def Let_def applyDIIS_def calculateEnergy_heap
        split: option.splits)

lemma amplitudeLoop_step:
  assumes "largestResidual s > maxResidual ctrl"
  shows "amplitudeLoop ctrl ops vds s =
           (if cycle (cycleBody ctrl ops vds s) > maxCycles ctrl - 1
            then Some (Inl (SerenityError (cycle (cycleBody ctrl ops vds s))))
            else amplitudeLoop ctrl ops vds (cycleBody ctrl ops vds s))"
  using assms by (subst amplitudeLoop.simps) (simp add: Let_def)

lemma amplitudeLoop_iterates:
  assumes run: "amplitudeLoop ctrl ops vds s = Some r"
  shows "\<exists>m. (case r of
                Inr s' \<Rightarrow> s' = (cycleBody ctrl ops vds ^^ m) s
              | Inl e \<Rightarrow> e = SerenityError (cycle ((cycleBody ctrl ops vds ^^ m) s)))"
proof -
  define P where "P = (\<lambda>(c::'a LocalMP2) (ps::address list) (vs::address list)
        (s0::'a loopState) (r0::error + 'a loopState).
      \<exists>m. (case r0 of
                Inr s' \<Rightarrow> s' = (cycleBody c ps vs ^^ m) s0
              | Inl e \<Rightarrow> e = SerenityError (cycle ((cycleBody c ps vs ^^ m) s0))))"
  have "P ctrl ops vds s r"
  proof (rule amplitudeLoop.raw_induct [where P = P, OF _ run])
    fix loop :: "'a LocalMP2 \<Rightarrow> address list \<Rightarrow> address list \<Rightarrow> 'a loopState
                   \<Rightarrow> (error + 'a loopState) option"
    fix c ps vs s0 r0
    assume IH: "\<And>c ps vs s0 r0. loop c ps vs s0 = Some r0 \<Longrightarrow> P c ps vs s0 r0"
      and step: "(if maxResidual c < largestResidual s0
                  then let s' = cycleBody c ps vs s0
                       in if maxCycles c - 1 < cycle s' then Some (Inl (SerenityError (cycle s')))
                          else loop c ps vs s'
                  else Some (Inr s0)) = Some r0"
    show "P c ps vs s0 r0"
    proof (cases "maxResidual c < largestResidual s0")
      case False
      with step have "r0 = Inr s0" by auto
      then have "(case r0 of Inr s' \<Rightarrow> s' = (cycleBody c ps vs ^^ 0) s0
              | Inl e \<Rightarrow> e = SerenityError (cycle ((cycleBody c ps vs ^^ 0) s0)))"
        by simp
      then show ?thesis unfolding P_def by (rule exI)
    next
      case True
      let ?s1 = "cycleBody c ps vs s0"
      show ?thesis
      proof (cases "maxCycles c - 1 < cycle ?s1")
        case True
        with \<open>maxResidual c < largestResidual s0\<close> step
        have "r0 = Inl (SerenityError (cycle ?s1))" by (auto simp: Let_def)
        then have "(case r0 of Inr s' \<Rightarrow> s' = (cycleBody c ps vs ^^ 1) s0
              | Inl e \<Rightarrow> e = SerenityError (cycle ((cycleBody c ps vs ^^ 1) s0)))"
          by simp
        then show ?thesis unfolding P_def by (rule exI)
      next
        case False
        with \<open>maxResidual c < largestResidual s0\<close> step have "loop c ps vs ?s1 = Some r0"
          by (simp add: Let_def)
        from IH [OF this] obtain m where
          m: "(case r0 of Inr s' \<Rightarrow> s' = (cycleBody c ps vs ^^ m) ?s1
              | Inl e \<Rightarrow> e = SerenityError (cycle ((cycleBody c ps vs ^^ m) ?s1)))"
          unfolding P_def by blast
        have "(cycleBody c ps vs ^^ m) ?s1 = (cycleBody c ps vs ^^ Suc m) s0"
          by (simp add: funpow_swap1)
        with m have "(case r0 of Inr s' \<Rightarrow> s' = (cycleBody c ps vs ^^ Suc m) s0
              | Inl e \<Rightarrow> e = SerenityError (cycle ((cycleBody c ps vs ^^ Suc m) s0)))"
          by (simp only:)
        then show ?thesis unfolding P_def by (rule exI)
      qed
    qed
  qed
  then show ?thesis by (simp add: P_def)
qed

lemma optimizeAmplitudes_iterates:
  assumes "optimizeAmplitudes ctrl d h ops vds = Some (Inr h')"
  shows "\<exists>m. h' = pairHeap ((cycleBody ctrl ops vds ^^ m)
                  \<lparr>pairHeap = h, cycle = 0, largestResidual = 10, diis = d\<rparr>)"
proof -
  let ?s0 = "\<lparr>pairHeap = h, cycle = 0, largestResidual = 10, diis = d\<rparr>"
  from assms obtain r where r: "amplitudeLoop ctrl ops vds ?s0 = Some r"
    and m: "map_sum id pairHeap r = Inr h'"
    by (auto simp: optimizeAmplitudes_def)
  from m obtain s' where s': "r = Inr s'" and h': "h' = pairHeap s'"
    by (cases r) auto
  from amplitudeLoop_iterates [OF r] s' obtain m where "s' = (cycleBody ctrl ops vds ^^ m) ?s0"
    by auto
  with h' show ?thesis by blast
qed

lemma cycle_update:
  assumes n: "n < length ops" and last: "ops ! n \<notin> set (drop (Suc n) ops)"
    and ty: "pairType (heapBefore ctrl (pairHeap s) ops n (ops ! n)) \<noteq> VERY_DISTANT"
  shows "fst (pairStep ctrl (sweep ctrl (pairHeap s) (take n ops)) (ops ! n)) =
           (heapBefore ctrl (pairHeap s) ops n)(ops ! n :=
              (heapBefore ctrl (pairHeap s) ops n (ops ! n))
                \<lparr>residual := k_ij (heapBefore ctrl (pairHeap s) ops n (ops ! n)),
                 t_ij := mat_sub (t_ij (heapBefore ctrl (pairHeap s) ops n (ops ! n)))
                    (cwiseQuotient (pairResidual ctrl (heapBefore ctrl (pairHeap s) ops n) (ops ! n))
                       (uncoupledTerm (heapBefore ctrl (pairHeap s) ops n (ops ! n))))\<rparr>)"
    and "t_ij (fst (sweep ctrl (pairHeap s) ops) (ops ! n)) =
           mat_sub (t_ij (heapBefore ctrl (pairHeap s) ops n (ops ! n)))
             (cwiseQuotient (pairResidual ctrl (heapBefore ctrl (pairHeap s) ops n) (ops ! n))
                (uncoupledTerm (heapBefore ctrl (pairHeap s) ops n (ops ! n))))"
    and "t_ij (pairHeap (cycleBody ctrl ops vds s) (ops ! n)) =
           (case acceleratedAmplitudes ctrl ops vds s (ops ! n) of
              None \<Rightarrow> mat_sub (t_ij (heapBefore ctrl (pairHeap s) ops n (ops ! n)))
                        (cwiseQuotient (pairResidual ctrl (heapBefore ctrl (pairHeap s) ops n) (ops ! n))
                           (uncoupledTerm (heapBefore ctrl (pairHeap s) ops n (ops ! n))))
            | Some t \<Rightarrow> t)"
proof -
  let ?sn = "sweep ctrl (pairHeap s) (take n ops)"
  from ty have ty': "pairType (fst ?sn (ops ! n)) \<noteq> VERY_DISTANT" by (simp add: heapBefore_def)
  show 1: "fst (pairStep ctrl ?sn (ops ! n)) =
           (heapBefore ctrl (pairHeap s) ops n)(ops ! n :=
              (heapBefore ctrl (pairHeap s) ops n (ops ! n))
                \<lparr>residual := k_ij (heapBefore ctrl (pairHeap s) ops n (ops ! n)),
                 t_ij := mat_sub (t_ij (heapBefore ctrl (pairHeap s) ops n (ops ! n)))
                    (cwiseQuotient (pairResidual ctrl (heapBefore ctrl (pairHeap s) ops n) (ops ! n))
                       (uncoupledTerm (heapBefore ctrl (pairHeap s) ops n (ops ! n))))\<rparr>)"
    using pairStep_heap [OF ty'] by (simp add: heapBefore_def)
  have a: "fst (sweep ctrl (pairHeap s) ops) (ops ! n)
             = fst (pairStep ctrl ?sn (ops ! n)) (ops ! n)"
    by (rule sweep_last_step [OF n last])
  show 2: "t_ij (fst (sweep ctrl (pairHeap s) ops) (ops ! n)) =
           mat_sub (t_ij (heapBefore ctrl (pairHeap s) ops n (ops ! n)))
             (cwiseQuotient (pairResidual ctrl (heapBefore ctrl (pairHeap s) ops n) (ops ! n))
                (uncoupledTerm (heapBefore ctrl (pairHeap s) ops n (ops ! n))))"
    by (simp add: a 1)
  show "t_ij (pairHeap (cycleBody ctrl ops vds s) (ops ! n)) =
           (case acceleratedAmplitudes ctrl ops vds s (ops ! n) of
              None \<Rightarrow> mat_sub (t_ij (heapBefore ctrl (pairHeap s) ops n (ops ! n)))
                        (cwiseQuotient (pairResidual ctrl (heapBefore ctrl (pairHeap s) ops n) (ops ! n))
                           (uncoupledTerm (heapBefore ctrl (pairHeap s) ops n (ops ! n))))
            | Some t \<Rightarrow> t)"
    by (simp only: cycleBody_t_ij 2)
qed

lemma couplingTerms_explicit:
  "couplingTerms ctrl h a =
     concat (map (\<lambda>coupledSet.
        (case getKJPairScreened coupledSet of
           None \<Rightarrow> []
         | Some kjPair \<Rightarrow>
             if \<bar>f_MO ctrl (pair_i (h a)) (getK coupledSet)\<bar> < fockMatrixPrescreeningThresholdd ctrl
                \<or> pair_i (h a) = getK coupledSet
             then []
             else [scale (f_MO ctrl (pair_i (h a)) (getK coupledSet))
                    (mat_mul (mat_mul (getS_ij_kj coupledSet)
                        (if listedPair (getK coupledSet) (pair_j (h a)) \<noteq> (getK coupledSet, pair_j (h a))
                         then transpose (t_ij (h kjPair)) else t_ij (h kjPair)))
                      (transpose (getS_ij_kj coupledSet)))])
      @ (case getIKPairScreened coupledSet of
           None \<Rightarrow> []
         | Some ikPair \<Rightarrow>
             if \<bar>f_MO ctrl (pair_j (h a)) (getK coupledSet)\<bar> < fockMatrixPrescreeningThresholdd ctrl
                \<or> pair_j (h a) = getK coupledSet
             then []
             else [scale (f_MO ctrl (getK coupledSet) (pair_j (h a)))
                    (mat_mul (mat_mul (getS_ij_ik coupledSet)
                        (if listedPair (pair_i (h a)) (getK coupledSet) \<noteq> (pair_i (h a), getK coupledSet)
                         then transpose (t_ij (h ikPair)) else t_ij (h ikPair)))
                      (transpose (getS_ij_ik coupledSet)))]))
       (coupledPairs (h a)))"
  unfolding couplingTerms_def
  by (rule arg_cong [where f = concat], rule map_cong [OF refl])
     (auto simp: kjTerm_def ikTerm_def termList_def listedPair_def Let_def max_def min_def
        split: option.splits)

lemma jacobiCycleBody_eq:
  "sweep ctrl (pairHeap s) ops = jacobiCycle ctrl (pairHeap s) ops \<Longrightarrow>
     cycleBody ctrl ops vds s = jacobiCycleBody ctrl ops vds s"
  by (simp add: cycleBody_def jacobiCycleBody_def)

lemma heapBefore_untouched:
  "c \<notin> set (take n ops) \<or> pairType (h c) = VERY_DISTANT \<Longrightarrow> heapBefore ctrl h ops n c = h c"
  by (simp add: heapBefore_def sweep_def sweepLoop_untouched)

lemma heapBefore_final:
  assumes "distinct ops" and "c \<in> set (take n ops)"
  shows "heapBefore ctrl h ops n c = fst (sweep ctrl h ops) c"
proof -
  from assms have "c \<notin> set (drop n ops)"
    by (metis append_take_drop_id distinct_append disjoint_iff)
  then have "fst (foldl (pairStep ctrl) (foldl (pairStep ctrl) (h, 0) (take n ops)) (drop n ops)) c
               = fst (foldl (pairStep ctrl) (h, 0) (take n ops)) c"
    by (simp add: sweepLoop_untouched)
  moreover have "foldl (pairStep ctrl) (foldl (pairStep ctrl) (h, 0) (take n ops)) (drop n ops)
                   = foldl (pairStep ctrl) (h, 0) ops"
    by (simp add: foldl_append [symmetric] del: foldl_append)
  ultimately show ?thesis by (simp add: sweep_def heapBefore_def)
qed

lemma exSwept_values:
  "exSwept 0 = (exSystem 0)\<lparr>residual := [[1 / 10]], t_ij := [[- 1 / 20]]\<rparr>"
  "exSwept (Suc 0) = (exSystem 1)\<lparr>residual := [[1 / 10]], t_ij := [[- 21 / 400]]\<rparr>"
  "exSwept 2 = (exSystem 2)\<lparr>residual := [[1 / 10]], t_ij := [[- 221 / 4000]]\<rparr>"
  by (simp_all add: exSwept_def ex_defs sweep_defs matrix_defs Let_def)


section \<open>The residual and the amplitude update\<close>

lemma exAccelerated_fields:
  "nThreads exAccelerated = 2" "threadNum exAccelerated = (\<lambda>n index. index mod 2)"
  "f_MO exAccelerated = (\<lambda>p q. if p = q then - 1 else 1 / 10)"
  "fockMatrixPrescreeningThresholdd exAccelerated = 1 / 100000"
  "diisStartResidual exAccelerated = 1"
  by (simp_all add: exAccelerated_def exSettings_def)

lemma exBefore_values:
  "heapBefore exAccelerated exSwept [0, Suc 0, 2] (Suc 0) 0
     = (exSystem 0)\<lparr>residual := [[1 / 10]], t_ij := [[- 221 / 4000]]\<rparr>"
  "heapBefore exAccelerated exSwept [0, Suc 0, 2] (Suc 0) (Suc 0) = exSwept 1"
  "heapBefore exAccelerated exSwept [0, Suc 0, 2] (Suc 0) 2 = exSwept 2"
  by (simp_all add: heapBefore_def exAccelerated_def exSwept_values ex_defs sweep_defs matrix_defs
        Let_def)

text \<open>
  C1. A cycle of \<open>optimizeAmplitudes\<close> is one run of the body of the while loop: whenever the
  largest residual is above the threshold the loop runs the body and goes on, or cancels,
  from the state the body leaves, and the heap a run returns is the result of a number of
  runs of the body from the initial state. In the body the sweep processes the pair at position \<open>n\<close>
  of the list in the heap that the first \<open>n\<close> pairs have left. For a pair that is not very
  distant and is not listed again later, with matrices of one shape, an uncoupled term
  without zero coefficients and every iteration of the coupling loop on a thread that has an
  accumulator: the residual that the temporary holds after the accumulators are merged is
  \<open>k_ij + uncoupledTerm \<odot> t_ij\<close> minus, one after the other, the terms of the coupling
  sum, whatever the distribution of the iterations over the threads; the loop body writes
  \<open>k_ij\<close> into the field \<open>residual\<close> and \<open>t_ij - residual / uncoupledTerm\<close>,
  coefficient-wise, into the amplitudes and changes nothing else in the heap; these are the
  amplitudes of the pair at the end of the sweep, and at the end of the cycle unless the
  accelerator overwrites them.
\<close>

theorem cycle_residual_and_update:
  assumes "n < length orbitalPairs"
    and "orbitalPairs ! n \<notin> set (drop (Suc n) orbitalPairs)"
    and "pairType (heapBefore ctrl (pairHeap s) orbitalPairs n (orbitalPairs ! n)) \<noteq> VERY_DISTANT"
    and "is_matrix r c (k_ij (heapBefore ctrl (pairHeap s) orbitalPairs n (orbitalPairs ! n)))"
    and "is_matrix r c (uncoupledTerm (heapBefore ctrl (pairHeap s) orbitalPairs n (orbitalPairs ! n)))"
    and "is_matrix r c (t_ij (heapBefore ctrl (pairHeap s) orbitalPairs n (orbitalPairs ! n)))"
    and "\<forall>index < length (coupledPairs (heapBefore ctrl (pairHeap s) orbitalPairs n (orbitalPairs ! n))).
           threadNum ctrl
             (length (coupledPairs (heapBefore ctrl (pairHeap s) orbitalPairs n (orbitalPairs ! n))))
             index < Suc (nThreads ctrl - 1)"
    and "nonzero (uncoupledTerm (heapBefore ctrl (pairHeap s) orbitalPairs n (orbitalPairs ! n)))"
  shows "let h = heapBefore ctrl (pairHeap s) orbitalPairs n;
             a = orbitalPairs ! n;
             res = foldl mat_sub
                     (mat_add (k_ij (h a)) (cwiseProduct (uncoupledTerm (h a)) (t_ij (h a))))
                     (couplingTerms ctrl h a);
             updated = mat_sub (t_ij (h a)) (cwiseQuotient res (uncoupledTerm (h a)))
         in sweep ctrl (pairHeap s) (take (Suc n) orbitalPairs) =
              pairStep ctrl (sweep ctrl (pairHeap s) (take n orbitalPairs)) a
          \<and> computeResidual ctrl (h(a := (h a)\<lparr>residual := k_ij (h a)\<rparr>)) a = res
          \<and> fst (pairStep ctrl (sweep ctrl (pairHeap s) (take n orbitalPairs)) a) =
              h(a := (h a)\<lparr>residual := k_ij (h a), t_ij := updated\<rparr>)
          \<and> t_ij (fst (sweep ctrl (pairHeap s) orbitalPairs) a) = updated
          \<and> t_ij (pairHeap (cycleBody ctrl orbitalPairs veryDistantPairs s) a) =
              (case acceleratedAmplitudes ctrl orbitalPairs veryDistantPairs s a of
                 None \<Rightarrow> updated | Some t \<Rightarrow> t)
          \<and> (maxResidual ctrl < largestResidual s \<longrightarrow>
               amplitudeLoop ctrl orbitalPairs veryDistantPairs s =
                 (if cycle (cycleBody ctrl orbitalPairs veryDistantPairs s) > maxCycles ctrl - 1
                  then Some (Inl (SerenityError (cycle (cycleBody ctrl orbitalPairs veryDistantPairs s))))
                  else amplitudeLoop ctrl orbitalPairs veryDistantPairs
                         (cycleBody ctrl orbitalPairs veryDistantPairs s)))
          \<and> (optimizeAmplitudes ctrl diis0 h0 orbitalPairs veryDistantPairs = Some (Inr h') \<longrightarrow>
               (\<exists>m. h' = pairHeap ((cycleBody ctrl orbitalPairs veryDistantPairs ^^ m)
                       \<lparr>pairHeap = h0, cycle = 0, largestResidual = 10, diis = diis0\<rparr>)))"
proof -
  let ?h = "heapBefore ctrl (pairHeap s) orbitalPairs n"
  let ?a = "orbitalPairs ! n"
  have res: "pairResidual ctrl ?h ?a =
           foldl mat_sub (mat_add (k_ij (?h ?a)) (cwiseProduct (uncoupledTerm (?h ?a)) (t_ij (?h ?a))))
             (couplingTerms ctrl ?h ?a)"
    by (rule pairResidual_closed [where h = ?h and a = ?a, OF assms(4-7)])
  note upd = cycle_update [OF assms(1-3), unfolded res]
  from res have "computeResidual ctrl (?h(?a := (?h ?a)\<lparr>residual := k_ij (?h ?a)\<rparr>)) ?a =
           foldl mat_sub (mat_add (k_ij (?h ?a)) (cwiseProduct (uncoupledTerm (?h ?a)) (t_ij (?h ?a))))
             (couplingTerms ctrl ?h ?a)"
    by (simp add: pairResidual_def)
  moreover have "optimizeAmplitudes ctrl diis0 h0 orbitalPairs veryDistantPairs = Some (Inr h') \<longrightarrow>
               (\<exists>m. h' = pairHeap ((cycleBody ctrl orbitalPairs veryDistantPairs ^^ m)
                       \<lparr>pairHeap = h0, cycle = 0, largestResidual = 10, diis = diis0\<rparr>))"
    by (rule impI, rule optimizeAmplitudes_iterates)
  ultimately show ?thesis
    using assms(1) upd by (simp add: Let_def sweep_step amplitudeLoop_step)
qed

theorem cycle_residual_and_update_witness:
  "couplingTerms exAccelerated (heapBefore exAccelerated exSwept [0, 1, 2] 1) 1
       = [[[- 221 / 40000]], [[- 221 / 40000]]]
     \<and> computeResidual exAccelerated
          ((heapBefore exAccelerated exSwept [0, 1, 2] 1)
             (1 := (heapBefore exAccelerated exSwept [0, 1, 2] 1 1)\<lparr>residual := [[1 / 10]]\<rparr>)) 1
          = [[121 / 20000]]
     \<and> t_ij (fst (sweep exAccelerated exSwept [0, 1, 2]) 1) = [[- 2221 / 40000]]
     \<and> acceleratedAmplitudes exAccelerated [0, 1, 2] [] (exInitial exSwept) 1 = None
     \<and> t_ij (pairHeap (cycleBody exAccelerated [0, 1, 2] [] (exInitial exSwept)) 1)
          = [[- 2221 / 40000]]
     \<and> acceleratedAmplitudes exAccelerated [0, 1, 2] [] (exInitial exSwept) 0 = Some [[0]]
     \<and> t_ij (pairHeap (cycleBody exAccelerated [0, 1, 2] [] (exInitial exSwept)) 0) = [[0]]"
proof -
  let ?h = "heapBefore exAccelerated (pairHeap (exInitial exSwept)) [0, 1, 2] 1"
  have p: "pairHeap (exInitial exSwept) = exSwept" by (simp add: exInitial_def)
  have 1: "(1::nat) < length [0, 1, 2::nat]" by simp
  have 2: "[0, 1, 2::nat] ! 1 \<notin> set (drop (Suc 1) [0, 1, 2])" by simp
  have 3: "pairType (?h ([0, 1, 2] ! 1)) \<noteq> VERY_DISTANT"
    by (simp add: p exBefore_values exSwept_values ex_defs)
  have 4: "is_matrix 1 1 (k_ij (?h ([0, 1, 2] ! 1)))"
    by (simp add: p exBefore_values exSwept_values ex_defs is_matrix_def)
  have 5: "is_matrix 1 1 (uncoupledTerm (?h ([0, 1, 2] ! 1)))"
    by (simp add: p exBefore_values exSwept_values ex_defs is_matrix_def)
  have 6: "is_matrix 1 1 (t_ij (?h ([0, 1, 2] ! 1)))"
    by (simp add: p exBefore_values exSwept_values ex_defs is_matrix_def)
  have 7: "\<forall>index < length (coupledPairs (?h ([0, 1, 2] ! 1))).
           threadNum exAccelerated (length (coupledPairs (?h ([0, 1, 2] ! 1)))) index
             < Suc (nThreads exAccelerated - 1)"
    by (simp add: p exBefore_values exSwept_values exAccelerated_fields ex_defs)
  have 8: "nonzero (uncoupledTerm (?h ([0, 1, 2] ! 1)))"
    by (simp add: p exBefore_values exSwept_values ex_defs nonzero_def)
  have 9: "couplingTerms exAccelerated (heapBefore exAccelerated exSwept [0, 1, 2] 1) 1
             = [[[- 221 / 40000]], [[- 221 / 40000]]]"
    by (simp add: couplingTerms_def termList_def kjTerm_def ikTerm_def exBefore_values
          exSwept_values exAccelerated_fields ex_defs matrix_defs Let_def)
  have 10: "acceleratedAmplitudes exAccelerated [0, 1, 2] [] (exInitial exSwept) 1 = None"
    by (simp add: acceleratedAmplitudes_def exAccelerated_def Let_def)
  have 11: "acceleratedAmplitudes exAccelerated [0, 1, 2] [] (exInitial exSwept) 0 = Some [[0]]"
    by (simp add: acceleratedAmplitudes_def exAccelerated_def exInitial_def exSwept_values
          ex_defs sweep_defs matrix_defs Let_def)
  have 12: "t_ij (pairHeap (cycleBody exAccelerated [0, 1, 2] [] (exInitial exSwept)) 0) = [[0]]"
    using 11 by (simp add: cycleBody_t_ij)
  from cycle_residual_and_update
         [where s = "exInitial exSwept" and ctrl = exAccelerated and orbitalPairs = "[0, 1, 2]"
            and n = 1 and veryDistantPairs = "[]", OF 1 2 3 4 5 6 7 8]
       9 10 11 12
  show ?thesis
    by (simp add: Let_def p exBefore_values exSwept_values ex_defs matrix_defs)
qed


section \<open>The terms of the coupling sum\<close>

text \<open>
  C4, as the code has it. Under the conditions of C1, the residual of the pair \<open>(i, j)\<close> that
  a cycle processes is \<open>k_ij + uncoupledTerm \<odot> t_ij\<close> minus, for every coupling set of
  the pair in turn, at most two matrices. The \<open>(k, j)\<close> companion contributes only when it
  exists, \<open>|f_MO(i, k)|\<close> is at least the prescreening threshold and \<open>i \<noteq> k\<close>; the \<open>(i, k)\<close>
  companion only when it exists, \<open>|f_MO(j, k)|\<close> is at least the threshold and \<open>j \<noteq> k\<close>; a
  missing companion contributes nothing. The matrix subtracted is
  \<open>f_MO(i, k) * (S \<cdot> t \<cdot> S\<^sup>T)\<close> for \<open>(k, j)\<close> and \<open>f_MO(k, j) * (S \<cdot> t \<cdot> S\<^sup>T)\<close> for
  \<open>(i, k)\<close>, where \<open>t\<close> is the companion's stored amplitude matrix, transposed exactly when
  the listing of the companion with first index \<open>\<ge>\<close> second index is the reverse of
  \<open>(k, j)\<close>, respectively \<open>(i, k)\<close>, that is for \<open>k < j\<close>, respectively \<open>i < k\<close>. This residual
  drives the amplitudes that the cycle leaves the pair with.
\<close>

theorem coupling_sum_of_cycle:
  assumes "n < length orbitalPairs"
    and "orbitalPairs ! n \<notin> set (drop (Suc n) orbitalPairs)"
    and "pairType (heapBefore ctrl (pairHeap s) orbitalPairs n (orbitalPairs ! n)) \<noteq> VERY_DISTANT"
    and "is_matrix r c (k_ij (heapBefore ctrl (pairHeap s) orbitalPairs n (orbitalPairs ! n)))"
    and "is_matrix r c (uncoupledTerm (heapBefore ctrl (pairHeap s) orbitalPairs n (orbitalPairs ! n)))"
    and "is_matrix r c (t_ij (heapBefore ctrl (pairHeap s) orbitalPairs n (orbitalPairs ! n)))"
    and "\<forall>index < length (coupledPairs (heapBefore ctrl (pairHeap s) orbitalPairs n (orbitalPairs ! n))).
           threadNum ctrl
             (length (coupledPairs (heapBefore ctrl (pairHeap s) orbitalPairs n (orbitalPairs ! n))))
             index < Suc (nThreads ctrl - 1)"
    and "nonzero (uncoupledTerm (heapBefore ctrl (pairHeap s) orbitalPairs n (orbitalPairs ! n)))"
  shows "let h = heapBefore ctrl (pairHeap s) orbitalPairs n;
             a = orbitalPairs ! n;
             i = pair_i (h a);
             j = pair_j (h a);
             f_cut = fockMatrixPrescreeningThresholdd ctrl;
             subtracted = concat (map (\<lambda>coupledSet.
                (case getKJPairScreened coupledSet of
                   None \<Rightarrow> []
                 | Some kjPair \<Rightarrow>
                     if \<bar>f_MO ctrl i (getK coupledSet)\<bar> < f_cut \<or> i = getK coupledSet then []
                     else [scale (f_MO ctrl i (getK coupledSet))
                            (mat_mul (mat_mul (getS_ij_kj coupledSet)
                                (if listedPair (getK coupledSet) j \<noteq> (getK coupledSet, j)
                                 then transpose (t_ij (h kjPair)) else t_ij (h kjPair)))
                              (transpose (getS_ij_kj coupledSet)))])
              @ (case getIKPairScreened coupledSet of
                   None \<Rightarrow> []
                 | Some ikPair \<Rightarrow>
                     if \<bar>f_MO ctrl j (getK coupledSet)\<bar> < f_cut \<or> j = getK coupledSet then []
                     else [scale (f_MO ctrl (getK coupledSet) j)
                            (mat_mul (mat_mul (getS_ij_ik coupledSet)
                                (if listedPair i (getK coupledSet) \<noteq> (i, getK coupledSet)
                                 then transpose (t_ij (h ikPair)) else t_ij (h ikPair)))
                              (transpose (getS_ij_ik coupledSet)))]))
               (coupledPairs (h a)));
             res = foldl mat_sub
                     (mat_add (k_ij (h a)) (cwiseProduct (uncoupledTerm (h a)) (t_ij (h a))))
                     subtracted;
             updated = mat_sub (t_ij (h a)) (cwiseQuotient res (uncoupledTerm (h a)))
         in computeResidual ctrl (h(a := (h a)\<lparr>residual := k_ij (h a)\<rparr>)) a = res
          \<and> fst (pairStep ctrl (sweep ctrl (pairHeap s) (take n orbitalPairs)) a) =
              h(a := (h a)\<lparr>residual := k_ij (h a), t_ij := updated\<rparr>)
          \<and> t_ij (pairHeap (cycleBody ctrl orbitalPairs veryDistantPairs s) a) =
              (case acceleratedAmplitudes ctrl orbitalPairs veryDistantPairs s a of
                 None \<Rightarrow> updated | Some t \<Rightarrow> t)
          \<and> (listedPair p q \<noteq> (p, q)) = (p < q)"
proof -
  let ?h = "heapBefore ctrl (pairHeap s) orbitalPairs n"
  let ?a = "orbitalPairs ! n"
  have res: "pairResidual ctrl ?h ?a =
           foldl mat_sub (mat_add (k_ij (?h ?a)) (cwiseProduct (uncoupledTerm (?h ?a)) (t_ij (?h ?a))))
             (couplingTerms ctrl ?h ?a)"
    by (rule pairResidual_closed [where h = ?h and a = ?a, OF assms(4-7)])
  note upd = cycle_update [OF assms(1-3), unfolded res]
  from res have cr: "computeResidual ctrl (?h(?a := (?h ?a)\<lparr>residual := k_ij (?h ?a)\<rparr>)) ?a =
           foldl mat_sub (mat_add (k_ij (?h ?a)) (cwiseProduct (uncoupledTerm (?h ?a)) (t_ij (?h ?a))))
             (couplingTerms ctrl ?h ?a)"
    by (simp add: pairResidual_def)
  have lp: "(listedPair p q \<noteq> (p, q)) = (p < q)"
    by (auto simp: listedPair_def max_def min_def)
  from cr upd(1) upd(3) lp show ?thesis
    unfolding Let_def couplingTerms_explicit [symmetric] by simp
qed

theorem coupling_sum_of_cycle_witness:
  "computeResidual exSettings (exCompanions(0 := (exCompanions 0)\<lparr>residual := [[1, 0], [0, 1]]\<rparr>)) 0
       = [[9 / 10, - 3 / 10], [- 2 / 5, 3 / 5]]
     \<and> acceleratedAmplitudes exSettings [0] [] (exInitial exCompanions) 0 = None
     \<and> t_ij (pairHeap (cycleBody exSettings [0] [] (exInitial exCompanions)) 0)
          = [[- 9 / 10, 3 / 10], [2 / 5, - 3 / 5]]"
proof -
  let ?h = "heapBefore exSettings (pairHeap (exInitial exCompanions)) [0] 0"
  have h: "?h = exCompanions" by (simp add: heapBefore_def exInitial_def sweep_def)
  have 1: "(0::nat) < length [0::nat]" by simp
  have 2: "[0::nat] ! 0 \<notin> set (drop (Suc 0) [0])" by simp
  have 3: "pairType (?h ([0] ! 0)) \<noteq> VERY_DISTANT"
    unfolding h by (simp add: exCompanions_def exOwner_def)
  have 4: "is_matrix 2 2 (k_ij (?h ([0] ! 0)))"
    unfolding h by (simp add: exCompanions_def exOwner_def is_matrix_def)
  have 5: "is_matrix 2 2 (uncoupledTerm (?h ([0] ! 0)))"
    unfolding h by (simp add: exCompanions_def exOwner_def is_matrix_def)
  have 6: "is_matrix 2 2 (t_ij (?h ([0] ! 0)))"
    unfolding h by (simp add: exCompanions_def exOwner_def is_matrix_def)
  have 7: "\<forall>index < length (coupledPairs (?h ([0] ! 0))).
           threadNum exSettings (length (coupledPairs (?h ([0] ! 0)))) index
             < Suc (nThreads exSettings - 1)"
    unfolding h by (simp add: exCompanions_def exOwner_def exSettings_def)
  have 8: "nonzero (uncoupledTerm (?h ([0] ! 0)))"
    unfolding h by (simp add: exCompanions_def exOwner_def nonzero_def)
  have 9: "acceleratedAmplitudes exSettings [0] [] (exInitial exCompanions) 0 = None"
    by (simp add: acceleratedAmplitudes_def exSettings_def Let_def sweep_defs exInitial_def
          exCompanions_def exOwner_def exSet_def exSet3_def exPair_def matrix_defs)
  from coupling_sum_of_cycle
         [where s = "exInitial exCompanions" and ctrl = exSettings and orbitalPairs = "[0]"
            and n = 0 and veryDistantPairs = "[]", OF 1 2 3 4 5 6 7 8, unfolded h]
       9
  show ?thesis
    by (simp add: Let_def exCompanions_def exOwner_def exSet_def exSet3_def exPair_def
          exSettings_def listedPair_def matrix_defs)
qed

text \<open>
  C4, as the claim words it, fails: for the pair \<open>(2,1)\<close> and \<open>k = 0\<close> the companion
  \<open>(k, j) = (0,1)\<close> is in the order \<open>i \<le> j\<close>, so the claim takes its amplitudes as stored;
  the code transposes them, and the residual and the new amplitudes of the pair differ from
  those of the claim.
\<close>

theorem transposition_counterexample:
  "kjTerm exSettings exCompanions 2 1 exSet = Some [[1 / 10, 3 / 10], [2 / 10, 4 / 10]]
     \<and> specKJTerm exSettings exCompanions 2 1 exSet = Some [[1 / 10, 2 / 10], [3 / 10, 4 / 10]]
     \<and> pairResidual exSettings exCompanions 0 = [[9 / 10, - 3 / 10], [- 2 / 5, 3 / 5]]
     \<and> specPairResidual exSettings exCompanions 0 = [[9 / 10, - 2 / 5], [- 3 / 10, 3 / 5]]
     \<and> t_ij (pairHeap (cycleBody exSettings [0] [] (exInitial exCompanions)) 0)
          = [[- 9 / 10, 3 / 10], [2 / 5, - 3 / 5]]"
  by (simp add: kjTerm_def ikTerm_def specKJTerm_def specIKTerm_def specListedPair_def
        specPairResidual_def termList_def cycleBody_def sweep_defs energy_defs applyDIIS_def
        exInitial_def exCompanions_def exOwner_def exSet_def exSet3_def exPair_def exSettings_def
        matrix_defs Let_def)


section \<open>Reads of companion amplitudes within a cycle\<close>

lemma exFarMiddle_values:
  "exFarMiddle 0 = exSwept 0"
  "exFarMiddle (Suc 0) = (exSwept 1)\<lparr>pairType := VERY_DISTANT\<rparr>"
  "exFarMiddle 2 = exSwept 2"
  by (simp_all add: exFarMiddle_def)

text \<open>
  C5, as the code has it. The sweep of a cycle updates the pairs in place, one after the
  other: the pair at position \<open>n\<close> is processed in the heap that the first \<open>n\<close> pairs have
  left. In that heap a companion that is very distant or is not among the first \<open>n\<close> pairs
  is as at the start of the cycle, so a read of its amplitudes sees the value of the end of
  the previous cycle; in a list without duplicates a companion among the first \<open>n\<close> pairs
  already is as the sweep leaves it, so a read sees the amplitudes of the current cycle (those
  the cycle ends with, unless the accelerator overwrites them). For a list without duplicates
  in which no pair reads the amplitudes of a companion updated earlier in the same sweep,
  the sweep equals the two-phase cycle and the whole cycle equals the cycle built on it.
\<close>

theorem cycle_reads:
  "(n < length orbitalPairs \<longrightarrow>
      sweep ctrl (pairHeap s) (take (Suc n) orbitalPairs) =
        pairStep ctrl (heapBefore ctrl (pairHeap s) orbitalPairs n,
                       snd (sweep ctrl (pairHeap s) (take n orbitalPairs))) (orbitalPairs ! n))
   \<and> (c \<notin> set (take n orbitalPairs) \<or> pairType (pairHeap s c) = VERY_DISTANT \<longrightarrow>
        heapBefore ctrl (pairHeap s) orbitalPairs n c = pairHeap s c)
   \<and> (distinct orbitalPairs \<longrightarrow> c \<in> set (take n orbitalPairs) \<longrightarrow>
        heapBefore ctrl (pairHeap s) orbitalPairs n c = fst (sweep ctrl (pairHeap s) orbitalPairs) c
        \<and> t_ij (pairHeap (cycleBody ctrl orbitalPairs veryDistantPairs s) c) =
            (case acceleratedAmplitudes ctrl orbitalPairs veryDistantPairs s c of
               None \<Rightarrow> t_ij (heapBefore ctrl (pairHeap s) orbitalPairs n c) | Some t \<Rightarrow> t))
   \<and> (distinct orbitalPairs \<longrightarrow> readsOnlyPending ctrl (pairHeap s) [] orbitalPairs \<longrightarrow>
        sweep ctrl (pairHeap s) orbitalPairs = jacobiCycle ctrl (pairHeap s) orbitalPairs
        \<and> cycleBody ctrl orbitalPairs veryDistantPairs s =
            jacobiCycleBody ctrl orbitalPairs veryDistantPairs s)"
proof (intro conjI impI)
  assume "n < length orbitalPairs"
  then show "sweep ctrl (pairHeap s) (take (Suc n) orbitalPairs) =
        pairStep ctrl (heapBefore ctrl (pairHeap s) orbitalPairs n,
                       snd (sweep ctrl (pairHeap s) (take n orbitalPairs))) (orbitalPairs ! n)"
    by (simp add: sweep_step heapBefore_def)
next
  assume "c \<notin> set (take n orbitalPairs) \<or> pairType (pairHeap s c) = VERY_DISTANT"
  then show "heapBefore ctrl (pairHeap s) orbitalPairs n c = pairHeap s c"
    by (rule heapBefore_untouched)
next
  assume d: "distinct orbitalPairs" and c: "c \<in> set (take n orbitalPairs)"
  then show f: "heapBefore ctrl (pairHeap s) orbitalPairs n c
                  = fst (sweep ctrl (pairHeap s) orbitalPairs) c"
    by (rule heapBefore_final)
  show "t_ij (pairHeap (cycleBody ctrl orbitalPairs veryDistantPairs s) c) =
            (case acceleratedAmplitudes ctrl orbitalPairs veryDistantPairs s c of
               None \<Rightarrow> t_ij (heapBefore ctrl (pairHeap s) orbitalPairs n c) | Some t \<Rightarrow> t)"
    by (simp only: cycleBody_t_ij f)
next
  assume d: "distinct orbitalPairs" and r: "readsOnlyPending ctrl (pairHeap s) [] orbitalPairs"
  then show j: "sweep ctrl (pairHeap s) orbitalPairs = jacobiCycle ctrl (pairHeap s) orbitalPairs"
    by (rule sweep_is_jacobi)
  then show "cycleBody ctrl orbitalPairs veryDistantPairs s =
            jacobiCycleBody ctrl orbitalPairs veryDistantPairs s"
    by (rule jacobiCycleBody_eq)
qed

theorem cycle_reads_witness:
  "distinct [0, 1, 2::nat]
     \<and> companionsRead exSettings (exFarMiddle 0) = [1, 1]
     \<and> companionsRead exSettings (exFarMiddle 2) = [1, 1]
     \<and> pairType (exFarMiddle 1) = VERY_DISTANT
     \<and> readsOnlyPending exSettings exFarMiddle [] [0, 1, 2]
     \<and> cycleBody exSettings [0, 1, 2] [] (exInitial exFarMiddle)
          = jacobiCycleBody exSettings [0, 1, 2] [] (exInitial exFarMiddle)
     \<and> t_ij (pairHeap (cycleBody exSettings [0, 1, 2] [] (exInitial exFarMiddle)) 2)
          = [[- 221 / 4000]]
     \<and> heapBefore exSettings exFarMiddle [0, 1, 2] 2 1 = exFarMiddle 1
     \<and> t_ij (exSystem 0) = [[0]]
     \<and> t_ij (heapBefore exSettings exSystem [0, 1, 2] 1 0) = [[- 1 / 20]]
     \<and> t_ij (pairHeap (cycleBody exSettings [0, 1, 2] [] (exInitial exSystem)) 0) = [[- 1 / 20]]"
proof -
  have p: "pairHeap (exInitial h) = h" for h by (simp add: exInitial_def)
  have 1: "distinct [0, 1, 2::nat]" by simp
  have 2: "companionsRead exSettings (exFarMiddle 0) = [1, 1]"
    by (simp add: companionsRead_def kjRead_def ikRead_def exFarMiddle_values exSwept_values ex_defs)
  have 3: "companionsRead exSettings (exFarMiddle 2) = [1, 1]"
    by (simp add: companionsRead_def kjRead_def ikRead_def exFarMiddle_values exSwept_values ex_defs)
  have 4: "pairType (exFarMiddle 1) = VERY_DISTANT"
    by (simp add: exFarMiddle_values)
  have 5: "readsOnlyPending exSettings (pairHeap (exInitial exFarMiddle)) [] [0, 1, 2]"
    by (simp add: p companionsRead_def kjRead_def ikRead_def exFarMiddle_values exSwept_values
          ex_defs)
  note far = cycle_reads [where s = "exInitial exFarMiddle" and ctrl = exSettings
                and orbitalPairs = "[0, 1, 2]" and veryDistantPairs = "[]" and n = 2 and c = 1]
  from far 1 5
  have 6: "cycleBody exSettings [0, 1, 2] [] (exInitial exFarMiddle)
             = jacobiCycleBody exSettings [0, 1, 2] [] (exInitial exFarMiddle)"
    by blast
  have 7: "t_ij (pairHeap (cycleBody exSettings [0, 1, 2] [] (exInitial exFarMiddle)) 2)
             = [[- 221 / 4000]]"
    by (simp add: exInitial_def exFarMiddle_values exSwept_values ex_defs run_defs)
  from far 4 have 8: "heapBefore exSettings exFarMiddle [0, 1, 2] 2 1 = exFarMiddle 1"
    by (simp only: p) blast
  have 9: "t_ij (exSystem 0) = [[0]]" by (simp add: ex_defs)
  have 10: "t_ij (pairHeap (cycleBody exSettings [0, 1, 2] [] (exInitial exSystem)) 0) = [[- 1 / 20]]"
    by (simp add: exInitial_def ex_defs run_defs)
  have 11: "acceleratedAmplitudes exSettings [0, 1, 2] [] (exInitial exSystem) 0 = None"
    by (simp add: acceleratedAmplitudes_def exSettings_def Let_def)
  have 12: "(0::nat) \<in> set (take 1 [0, 1, 2])" by simp
  note sys = cycle_reads [where s = "exInitial exSystem" and ctrl = exSettings
                and orbitalPairs = "[0, 1, 2]" and veryDistantPairs = "[]" and n = 1 and c = 0]
  from sys 1 12
  have "t_ij (pairHeap (cycleBody exSettings [0, 1, 2] [] (exInitial exSystem)) 0) =
            (case acceleratedAmplitudes exSettings [0, 1, 2] [] (exInitial exSystem) 0 of
               None \<Rightarrow> t_ij (heapBefore exSettings (pairHeap (exInitial exSystem)) [0, 1, 2] 1 0)
             | Some t \<Rightarrow> t)"
    by blast
  with 10 11 have 13: "t_ij (heapBefore exSettings exSystem [0, 1, 2] 1 0) = [[- 1 / 20]]"
    by (simp add: p)
  from 5 have rp: "readsOnlyPending exSettings exFarMiddle [] [0, 1, 2]" by (simp only: p)
  from 1 2 3 4 rp 6 7 8 9 13 10 show ?thesis by (intro conjI)
qed

text \<open>
  C5, as the claim words it, fails: in the two-orbital system the pair \<open>(1,0)\<close> is processed
  after \<open>(0,0)\<close> and reads the amplitudes that this sweep has just written, so the amplitudes
  it ends the cycle with differ from those of the two-phase cycle.
\<close>

theorem sweep_reads_updated_amplitudes_counterexample:
  "t_ij (fst (sweep exSettings exSystem [0, 1, 2]) 1) = [[- 21 / 400]]
     \<and> t_ij (fst (jacobiCycle exSettings exSystem [0, 1, 2]) 1) = [[- 1 / 20]]
     \<and> t_ij (pairHeap (cycleBody exSettings [0, 1, 2] [] (exInitial exSystem)) 1) = [[- 21 / 400]]
     \<and> t_ij (pairHeap (jacobiCycleBody exSettings [0, 1, 2] [] (exInitial exSystem)) 1)
          = [[- 1 / 20]]"
  by (simp add: exInitial_def ex_defs run_defs jacobiCycle_def jacobiCycleBody_def)


end
